theory Spec2Isabelle
  imports Complex_Main "HOL-Library.AList" "HOL-Library.DAList"
begin

section \<open>Python values, exceptions and the built-in casts\<close>

text \<open>
  The module \<^verbatim>\<open>sub/star.py\<close> is Python 2 code.  Its exceptions become the values
  of one datatype; \<^verbatim>\<open>PySegInputError(expr, msg)\<close> keeps both of its strings.
  \<open>NotModelled\<close> marks the inputs on which the behaviour of a numpy conversion is
  left outside this development (a cell of an integer column that is not a Python
  integer); no theorem below reads it as a failure of the program.
\<close>

datatype error =
    PySegInputError string string
  | ValueError
  | TypeError
  | KeyError
  | IndexError
  | OverflowError
  | NotModelled

text \<open>
  A Python float is a double: a rational, an infinity or a NaN (the sign of zero is
  not kept: \<^verbatim>\<open>-0.0 == 0.0\<close> in Python).  Rounding a decimal literal to the nearest
  double and printing a double with \<^verbatim>\<open>str\<close> are parameters of the
  development, collected with the other library behaviour the code relies on in the
  record \<open>pyenv\<close>: the iteration order of a \<^verbatim>\<open>set\<close> of integers, the permutation
  \<^verbatim>\<open>numpy.argsort\<close> returns, and the numerical kernels of the alignment score
  (the angle between two rotated reference vectors, the corrected coordinate of a
  particle, the distance between two coordinates).
\<close>

datatype pyfloat = Fin rat | PInf | NInf | NaN

datatype pyval = VStr string | VInt int | VFloat pyfloat

datatype dtype = TStr | TInt | TFloat

record pyenv =
  round_float :: "rat \<Rightarrow> pyfloat"
  str_float :: "pyfloat \<Rightarrow> string"
  set_order :: "int list \<Rightarrow> int list"
  argsort :: "int list \<Rightarrow> nat list"
  angle_kernel :: "pyval list \<Rightarrow> pyval list \<Rightarrow> pyfloat list \<Rightarrow> error + pyfloat"
  coord_kernel :: "pyval list \<Rightarrow> pyval list \<Rightarrow> error + pyfloat list"
  shift_kernel :: "pyfloat list \<Rightarrow> pyfloat list \<Rightarrow> pyfloat"

subsection \<open>Lists as Python uses them\<close>

text \<open>\<^verbatim>\<open>xs.index(x)\<close>: the first position of \<open>x\<close>, \<open>None\<close> where Python raises ValueError.\<close>

fun list_index :: "'a list \<Rightarrow> 'a \<Rightarrow> nat option" where
  "list_index [] x = None"
| "list_index (y # ys) x = (if y = x then Some 0 else map_option Suc (list_index ys x))"

text \<open>\<^verbatim>\<open>xs.pop(i)\<close> for an index in range: the list without position \<open>i\<close>.\<close>

definition pop_at :: "nat \<Rightarrow> 'a list \<Rightarrow> 'a list" where
  "pop_at i xs = take i xs @ drop (Suc i) xs"

text \<open>
  \<^verbatim>\<open>xs[i]\<close> on a list or a numpy array of length \<open>n\<close>: an index in \<open>[-n, n)\<close> is
  accepted and a negative one counts from the end; any other raises IndexError.
\<close>

definition norm_index :: "nat \<Rightarrow> int \<Rightarrow> nat option" where
  "norm_index n i =
     (if - int n \<le> i \<and> i < int n then Some (nat (if i < 0 then i + int n else i)) else None)"

definition py_get :: "'a list \<Rightarrow> int \<Rightarrow> error + 'a" where
  "py_get xs i = (case norm_index (length xs) i of None \<Rightarrow> Inl IndexError | Some j \<Rightarrow> Inr (xs ! j))"

text \<open>
  An index into a numpy array of length \<open>n\<close>.  numpy converts the Python integer to a
  machine index first: one in \<open>[2^63, 2^64)\<close> becomes an unsigned 64-bit value and the
  conversion raises OverflowError; any other integer outside \<open>[-n, n)\<close> raises
  IndexError.
\<close>

definition np_index :: "nat \<Rightarrow> int \<Rightarrow> error + nat" where
  "np_index n i =
     (if 2 ^ 63 \<le> i \<and> i < 2 ^ 64 then Inl OverflowError
      else (case norm_index n i of None \<Rightarrow> Inl IndexError | Some j \<Rightarrow> Inr j))"

text \<open>Arithmetic on \<^verbatim>\<open>np.int64\<close> wraps around.\<close>

definition wrap64 :: "int \<Rightarrow> int" where
  "wrap64 i = (i + 2 ^ 63) mod 2 ^ 64 - 2 ^ 63"

subsection \<open>Strings and numbers\<close>

definition NL :: char where "NL = CHR 0x0A"
definition TAB :: char where "TAB = CHR 0x09"

text \<open>The six characters \<^verbatim>\<open>isspace\<close> accepts in the C locale.\<close>

definition py_isspace :: "char \<Rightarrow> bool" where
  "py_isspace c = (c \<in> set [CHR '' '', CHR 0x09, CHR 0x0A, CHR 0x0B, CHR 0x0C, CHR 0x0D])"

definition lstrip :: "string \<Rightarrow> string" where
  "lstrip s = dropWhile py_isspace s"

definition rstrip :: "string \<Rightarrow> string" where
  "rstrip s = rev (dropWhile py_isspace (rev s))"

definition is_digit :: "char \<Rightarrow> bool" where
  "is_digit c = (c \<in> set ''0123456789'')"

definition digit_val :: "char \<Rightarrow> nat" where
  "digit_val c = (case list_index ''0123456789'' c of None \<Rightarrow> 0 | Some d \<Rightarrow> d)"

definition digit_char :: "nat \<Rightarrow> char" where
  "digit_char d = ''0123456789'' ! d"

definition nat_of_digits :: "string \<Rightarrow> nat" where
  "nat_of_digits ds = foldl (\<lambda>a c. 10 * a + digit_val c) 0 ds"

text \<open>\<^verbatim>\<open>str(n)\<close> for an integer: its decimal digits, with a minus sign when negative.\<close>

fun str_nat :: "nat \<Rightarrow> string" where
  "str_nat n = (if n < 10 then [digit_char n] else str_nat (n div 10) @ [digit_char (n mod 10)])"

declare str_nat.simps [simp del]

definition str_int :: "int \<Rightarrow> string" where
  "str_int i = (if i < 0 then CHR ''-'' # str_nat (nat (- i)) else str_nat (nat i))"

text \<open>A leading sign, split off: \<open>(negative, rest)\<close>.\<close>

definition take_sign :: "string \<Rightarrow> bool \<times> string" where
  "take_sign s =
     (case s of [] \<Rightarrow> (False, [])
      | c # r \<Rightarrow> if c = CHR ''-'' then (True, r) else if c = CHR ''+'' then (False, r) else (False, s))"

text \<open>
  \<^verbatim>\<open>int(s)\<close> for a string, base 10, as CPython 2.7 parses it (\<^verbatim>\<open>PyInt_FromString\<close>
  over \<^verbatim>\<open>PyOS_strtol\<close>): white space, an optional sign, white space again
  (\<^verbatim>\<open>PyOS_strtoul\<close> skips it), at least one digit, white space, the end.
  \<open>None\<close> where Python raises ValueError.
\<close>

definition int_of_str :: "string \<Rightarrow> int option" where
  "int_of_str s =
     (let (neg, s2) = take_sign (lstrip s);
          s3 = lstrip s2;
          ds = takeWhile is_digit s3;
          rest = lstrip (dropWhile is_digit s3)
      in if ds = [] \<or> rest \<noteq> [] then None
         else Some (if neg then - int (nat_of_digits ds) else int (nat_of_digits ds)))"

text \<open>
  \<^verbatim>\<open>float(s)\<close> for a string, as CPython 2.7 parses it (\<^verbatim>\<open>PyFloat_FromString\<close>): the
  string is stripped of white space, then it is a decimal literal (sign, digits with
  an optional point and at least one digit, an optional exponent with at least one
  digit) or, ignoring case, \<^verbatim>\<open>inf\<close>, \<^verbatim>\<open>infinity\<close> or \<^verbatim>\<open>nan\<close> with an optional sign.
  \<open>parse_decimal\<close> gives the exact rational the literal denotes; \<open>round_float\<close>
  turns it into a double.
\<close>

definition pow10 :: "int \<Rightarrow> rat" where
  "pow10 e = (if 0 \<le> e then 10 ^ nat e else 1 / 10 ^ nat (- e))"

definition parse_decimal :: "string \<Rightarrow> rat option" where
  "parse_decimal s =
     (let (neg, s2) = take_sign s;
          ip = takeWhile is_digit s2;
          r1 = dropWhile is_digit s2;
          (fp, r2) = (case r1 of [] \<Rightarrow> ([], [])
                      | c # r \<Rightarrow> if c = CHR ''.'' then (takeWhile is_digit r, dropWhile is_digit r)
                                 else ([], r1));
          m = of_nat (nat_of_digits (ip @ fp)) * (if neg then - 1 else 1)
      in if ip = [] \<and> fp = [] then None
         else (case r2 of [] \<Rightarrow> Some (m * pow10 (- int (length fp)))
               | c # r \<Rightarrow>
                   if c = CHR ''e'' \<or> c = CHR ''E'' then
                     (let (eneg, r3) = take_sign r in
                      if r3 \<noteq> [] \<and> list_all is_digit r3
                      then Some (m * pow10 ((if eneg then - int (nat_of_digits r3)
                                             else int (nat_of_digits r3)) - int (length fp)))
                      else None)
                   else None))"

definition py_lower :: "char \<Rightarrow> char" where
  "py_lower c =
     (case list_index ''ABCDEFGHIJKLMNOPQRSTUVWXYZ'' c of
        None \<Rightarrow> c | Some i \<Rightarrow> ''abcdefghijklmnopqrstuvwxyz'' ! i)"

definition parse_inf_nan :: "string \<Rightarrow> pyfloat option" where
  "parse_inf_nan s =
     (let (neg, r) = take_sign s; w = map py_lower r
      in if w = ''inf'' \<or> w = ''infinity'' then Some (if neg then NInf else PInf)
         else if w = ''nan'' then Some NaN
         else None)"

definition float_of_str :: "pyenv \<Rightarrow> string \<Rightarrow> pyfloat option" where
  "float_of_str E s =
     (let s1 = rstrip (lstrip s) in
      case parse_decimal s1 of
        Some q \<Rightarrow> Some (round_float E q)
      | None \<Rightarrow> parse_inf_nan s1)"

text \<open>\<^verbatim>\<open>int(x)\<close> for a float truncates toward zero; it raises on an infinity or a NaN.\<close>

definition trunc_zero :: "rat \<Rightarrow> int" where
  "trunc_zero q = (if q < 0 then - \<lfloor>- q\<rfloor> else \<lfloor>q\<rfloor>)"

definition int_of_float :: "pyfloat \<Rightarrow> error + int" where
  "int_of_float f =
     (case f of Fin q \<Rightarrow> Inr (trunc_zero q)
      | NaN \<Rightarrow> Inl ValueError
      | PInf \<Rightarrow> Inl OverflowError
      | NInf \<Rightarrow> Inl OverflowError)"

text \<open>\<^verbatim>\<open>float(i)\<close> for an integer rounds to a double and raises OverflowError beyond the doubles.\<close>

definition float_of_int :: "pyenv \<Rightarrow> int \<Rightarrow> error + pyfloat" where
  "float_of_int E i =
     (case round_float E (of_int i) of Fin q \<Rightarrow> Inr (Fin q) | _ \<Rightarrow> Inl OverflowError)"

definition py_str :: "pyenv \<Rightarrow> pyval \<Rightarrow> string" where
  "py_str E v = (case v of VStr s \<Rightarrow> s | VInt i \<Rightarrow> str_int i | VFloat f \<Rightarrow> str_float E f)"

definition py_int :: "pyval \<Rightarrow> error + int" where
  "py_int v =
     (case v of VInt i \<Rightarrow> Inr i
      | VFloat f \<Rightarrow> int_of_float f
      | VStr s \<Rightarrow> (case int_of_str s of None \<Rightarrow> Inl ValueError | Some i \<Rightarrow> Inr i))"

definition py_float :: "pyenv \<Rightarrow> pyval \<Rightarrow> error + pyfloat" where
  "py_float E v =
     (case v of VFloat f \<Rightarrow> Inr f
      | VInt i \<Rightarrow> float_of_int E i
      | VStr s \<Rightarrow> (case float_of_str E s of None \<Rightarrow> Inl ValueError | Some f \<Rightarrow> Inr f))"

text \<open>\<^verbatim>\<open>dtype(v)\<close>: the column's type object applied to a value.\<close>

definition cast :: "pyenv \<Rightarrow> dtype \<Rightarrow> pyval \<Rightarrow> error + pyval" where
  "cast E dt v =
     (case dt of
        TStr \<Rightarrow> Inr (VStr (py_str E v))
      | TInt \<Rightarrow> (case py_int v of Inl e \<Rightarrow> Inl e | Inr i \<Rightarrow> Inr (VInt i))
      | TFloat \<Rightarrow> (case py_float E v of Inl e \<Rightarrow> Inl e | Inr f \<Rightarrow> Inr (VFloat f)))"

text \<open>The loop \<^verbatim>\<open>for v in val: row.append(dtype(v))\<close>; the first failing cast ends it.\<close>

fun cast_all :: "pyenv \<Rightarrow> dtype \<Rightarrow> pyval list \<Rightarrow> error + pyval list" where
  "cast_all E dt [] = Inr []"
| "cast_all E dt (v # vs) =
     (case cast E dt v of
        Inl e \<Rightarrow> Inl e
      | Inr w \<Rightarrow> (case cast_all E dt vs of Inl e \<Rightarrow> Inl e | Inr ws \<Rightarrow> Inr (w # ws)))"

section \<open>The schema registry: class RelionCols\<close>

definition relion_cols :: "string list" where
  "relion_cols =
     [''_rlnMicrographName'', ''_rlnCoordinateX'', ''_rlnCoordinateY'', ''_rlnCoordinateZ'',
      ''_rlnImageName'', ''_rlnCtfImage'', ''_rlnGroupNumber'', ''_rlnAngleRotPrior'',
      ''_rlnAngleTiltPrior'', ''_rlnAnglePsiPrior'', ''_rlnAngleRot'', ''_rlnAngleTilt'',
      ''_rlnAnglePsi'', ''_rlnOriginX'', ''_rlnOriginY'', ''_rlnClassNumber'',
      ''_rlnNormCorrection'', ''_rlnOriginZ'', ''_rlnLogLikeliContribution'',
      ''_rlnMaxValueProbDistribution'', ''_rlnNrOfSignificantSamples'', ''_rlnRandomSubset'',
      ''_psGhMCFPickle'',
      ''_psSegImage'', ''_psSegLabel'', ''_psSegScale'', ''_psSegRot'', ''_psSegTilt'',
      ''_psSegPsi'', ''_psSegOffX'', ''_psSegOffY'', ''_psSegOffZ'',
      ''_psAPClass'', ''_psAPCenter'']"

definition relion_dtypes :: "dtype list" where
  "relion_dtypes =
     [TStr, TFloat, TFloat, TFloat,
      TStr, TStr, TInt, TFloat,
      TFloat, TFloat, TFloat, TFloat,
      TFloat, TFloat, TFloat, TInt,
      TFloat, TFloat, TFloat,
      TFloat, TInt, TInt,
      TStr,
      TStr, TInt, TFloat, TFloat, TFloat,
      TFloat, TFloat, TFloat, TFloat,
      TInt, TInt]"

definition is_valid :: "string \<Rightarrow> bool" where
  "is_valid key = (list_index relion_cols key \<noteq> None)"

definition get_dtype :: "string \<Rightarrow> dtype option" where
  "get_dtype key =
     (case list_index relion_cols key of
        None \<Rightarrow> None
      | Some idx \<Rightarrow> Some (relion_dtypes ! idx))"

section \<open>The table: class Star\<close>

text \<open>
  The attributes of a \<^verbatim>\<open>Star\<close> object.  The dictionary \<^verbatim>\<open>__data\<close> is an association
  list read with \<open>map_of\<close> and written with \<open>AList.update\<close> and \<open>AList.delete\<close>; the
  registry \<^verbatim>\<open>__checker\<close> is the constant above.
\<close>

record star =
  header_1 :: "string list"
  data :: "(string \<times> pyval list) list"
  dtypes :: "dtype list"
  rows :: nat
  cols :: "string list"
  root_dir :: "string option"
  fname :: "string option"

definition Star_init :: star where
  "Star_init =
     \<lparr>header_1 = [[NL], ''data_'' @ [NL], [NL], ''loop_'' @ [NL]],
      data = [], dtypes = [], rows = 0, cols = [], root_dir = None, fname = None\<rparr>"

definition get_ncols :: "star \<Rightarrow> nat" where
  "get_ncols t = length (cols t)"

definition get_nrows :: "star \<Rightarrow> nat" where
  "get_nrows t = rows t"

definition is_column :: "star \<Rightarrow> string \<Rightarrow> bool" where
  "is_column t key = (key \<in> set (cols t))"

definition has_column :: "star \<Rightarrow> string \<Rightarrow> bool" where
  "has_column t key = (key \<in> set (cols t))"

text \<open>\<^verbatim>\<open>get_column_data\<close> returns \<^verbatim>\<open>None\<close> for a name that is not a column; the
  dictionary access raises KeyError when the name has no entry.\<close>

definition get_column_data :: "star \<Rightarrow> string \<Rightarrow> error + pyval list option" where
  "get_column_data t key =
     (if is_column t key
      then (case map_of (data t) key of None \<Rightarrow> Inl KeyError | Some col \<Rightarrow> Inr (Some col))
      else Inr None)"

definition get_column_keys :: "star \<Rightarrow> string list" where
  "get_column_keys t = cols t"

text \<open>\<^verbatim>\<open>get_column_type\<close>: \<^verbatim>\<open>None\<close> for an unknown column, IndexError when \<^verbatim>\<open>__dtypes\<close>
  is shorter than \<^verbatim>\<open>__cols\<close>.\<close>

definition get_column_type :: "star \<Rightarrow> string \<Rightarrow> error + dtype option" where
  "get_column_type t key =
     (case list_index (cols t) key of
        None \<Rightarrow> Inr None
      | Some idx \<Rightarrow> if idx < length (dtypes t) then Inr (Some (dtypes t ! idx)) else Inl IndexError)"

definition get_element :: "star \<Rightarrow> string \<Rightarrow> int \<Rightarrow> error + pyval" where
  "get_element t key row =
     (case map_of (data t) key of None \<Rightarrow> Inl KeyError | Some col \<Rightarrow> py_get col row)"

subsection \<open>add\_column\<close>

text \<open>
  The argument \<^verbatim>\<open>val\<close> is a scalar or a list.  \<^verbatim>\<open>hasattr(val, '__len__')\<close> holds for a
  list and also for a string, which then iterates over its characters.
\<close>

datatype colarg = Scalar pyval | Seq "pyval list"

definition arg_items :: "colarg \<Rightarrow> pyval list option" where
  "arg_items val =
     (case val of
        Seq vs \<Rightarrow> Some vs
      | Scalar v \<Rightarrow> (case v of VStr s \<Rightarrow> Some (map (\<lambda>c. VStr [c]) s) | _ \<Rightarrow> None))"

definition scalar_of :: "colarg \<Rightarrow> pyval" where
  "scalar_of val = (case val of Scalar v \<Rightarrow> v | Seq vs \<Rightarrow> VInt (- 1))"

definition length_msg :: "nat \<Rightarrow> nat \<Rightarrow> string" where
  "length_msg n r =
     ''For multiple input values their length, '' @ str_int (int n) @ '' must aggree''
       @ '' with the current number of rows, '' @ str_int (int r)"

definition not_accepted_msg :: "string \<Rightarrow> string" where
  "not_accepted_msg key = ''Column name '' @ key @ '' not accepted''"

text \<open>
  A mutating method returns \<open>Inr\<close> the object after the call, or \<open>Inl\<close> the exception
  together with the object as the raise leaves it.
\<close>

definition add_column :: "pyenv \<Rightarrow> star \<Rightarrow> string \<Rightarrow> colarg \<Rightarrow> bool \<Rightarrow> (error \<times> star) + star" where
  "add_column E t key val no_parse =
     (if no_parse \<or> is_valid key then
        (let dtype = (case get_dtype key of None \<Rightarrow> TFloat | Some d \<Rightarrow> d);
             filled =
               (case arg_items val of
                  Some vs \<Rightarrow>
                    if length vs \<noteq> rows t
                    then Inl (PySegInputError ''add_column (Star)'' (length_msg (length vs) (rows t)))
                    else cast_all E dtype vs
                | None \<Rightarrow> cast_all E dtype (replicate (rows t) (scalar_of val)))
         in case filled of
              Inl e \<Rightarrow> Inl (e, t)
            | Inr row \<Rightarrow>
                (let t1 = t\<lparr>data := AList.update key row (data t)\<rparr> in
                 case list_index (cols t) key of
                   None \<Rightarrow> Inr (t1\<lparr>cols := cols t @ [key], dtypes := dtypes t @ [dtype]\<rparr>)
                 | Some idx \<Rightarrow>
                     if idx < length (dtypes t)
                     then Inr (t1\<lparr>cols := (cols t)[idx := key], dtypes := (dtypes t)[idx := dtype]\<rparr>)
                     else Inl (IndexError, t1\<lparr>cols := (cols t)[idx := key]\<rparr>)))
      else Inl (PySegInputError ''add_column (Star)'' (not_accepted_msg key), t))"

subsection \<open>add\_row\<close>

definition count_msg :: "nat \<Rightarrow> nat \<Rightarrow> string" where
  "count_msg n c =
     ''Number of columns introduced for this row, '' @ str_int (int n) @ '' does not ''
       @ '' fit the current number of columns, '' @ str_int (int c)"

definition not_present_msg :: "string \<Rightarrow> string" where
  "not_present_msg key = ''Column name '' @ key @ '' not present.''"

text \<open>
  The loop over \<^verbatim>\<open>zip(keys, values)\<close>.  Each pass appends to its column before the
  next key is looked at; \<^verbatim>\<open>self.__data[key].append\<close> is resolved before its argument
  \<^verbatim>\<open>dtype(value)\<close> is evaluated.
\<close>

fun add_row_loop :: "pyenv \<Rightarrow> star \<Rightarrow> (string \<times> pyval) list \<Rightarrow> (error \<times> star) + star" where
  "add_row_loop E t [] = Inr t"
| "add_row_loop E t ((key, v) # kvs) =
     (if is_column t key then
        (case get_column_type t key of
           Inl e \<Rightarrow> Inl (e, t)
         | Inr None \<Rightarrow> Inl (TypeError, t)
         | Inr (Some dtype) \<Rightarrow>
             (case map_of (data t) key of
                None \<Rightarrow> Inl (KeyError, t)
              | Some col \<Rightarrow>
                  (case cast E dtype v of
                     Inl e \<Rightarrow> Inl (e, t)
                   | Inr w \<Rightarrow> add_row_loop E (t\<lparr>data := AList.update key (col @ [w]) (data t)\<rparr>) kvs)))
      else Inl (PySegInputError ''add_row (Star)'' (not_present_msg key), t))"

text \<open>
  \<^verbatim>\<open>add_row(**kwargs)\<close>: the keyword dictionary has distinct keys, in the order the
  dictionary iterates them; the type of distinct association lists carries that.
\<close>

definition add_row :: "pyenv \<Rightarrow> star \<Rightarrow> (string, pyval) alist \<Rightarrow> (error \<times> star) + star" where
  "add_row E t kwargs =
     (let kvs = DAList.impl_of kwargs in
      if length kvs \<noteq> get_ncols t
      then Inl (PySegInputError ''add_row (Star)'' (count_msg (length kvs) (get_ncols t)), t)
      else (case add_row_loop E t kvs of
              Inl r \<Rightarrow> Inl r
            | Inr t' \<Rightarrow> Inr (t'\<lparr>rows := rows t' + 1\<rparr>)))"

subsection \<open>del\_column\<close>

definition del_column :: "star \<Rightarrow> string \<Rightarrow> (error \<times> star) + star" where
  "del_column t key =
     (case list_index (cols t) key of
        None \<Rightarrow> Inr t
      | Some idx \<Rightarrow>
          (let t1 = t\<lparr>cols := pop_at idx (cols t)\<rparr> in
           if idx < length (dtypes t) then
             (let t2 = t1\<lparr>dtypes := pop_at idx (dtypes t)\<rparr> in
              case map_of (data t) key of
                None \<Rightarrow> Inl (KeyError, t2)
              | Some col \<Rightarrow> Inr (t2\<lparr>data := AList.delete key (data t)\<rparr>))
           else Inl (IndexError, t1)))"

subsection \<open>del\_rows\<close>

text \<open>
  \<^verbatim>\<open>ids_lut\<close>: a numpy array of \<open>hold_rows\<close> booleans.  \<^verbatim>\<open>ids_lut[idx] = True\<close> sits in
  a \<^verbatim>\<open>try\<close> whose handler drops an IndexError; any other exception ends the call.
\<close>

fun mark_loop :: "nat \<Rightarrow> bool list \<Rightarrow> int list \<Rightarrow> error + bool list" where
  "mark_loop n lut [] = Inr lut"
| "mark_loop n lut (idx # ids) =
     (case np_index n idx of
        Inl e \<Rightarrow> if e = IndexError then mark_loop n lut ids else Inl e
      | Inr j \<Rightarrow> mark_loop n (lut[j := True]) ids)"

definition mark_ids :: "nat \<Rightarrow> int list \<Rightarrow> error + bool list" where
  "mark_ids n ids = mark_loop n (replicate n False) ids"

text \<open>The inner loop \<^verbatim>\<open>for key in self.__data: self.__data[key].append(hold_data[key][i])\<close>.\<close>

fun append_row ::
  "(string \<times> pyval list) list \<Rightarrow> nat \<Rightarrow> (string \<times> pyval list) list \<Rightarrow>
     (error \<times> (string \<times> pyval list) list) + (string \<times> pyval list) list" where
  "append_row hold i [] = Inr []"
| "append_row hold i ((key, col) # rest) =
     (case map_of hold key of
        None \<Rightarrow> Inl (KeyError, (key, col) # rest)
      | Some old \<Rightarrow>
          if i < length old then
            (case append_row hold i rest of
               Inl (e, rest') \<Rightarrow> Inl (e, (key, col @ [old ! i]) # rest')
             | Inr rest' \<Rightarrow> Inr ((key, col @ [old ! i]) # rest'))
          else Inl (IndexError, (key, col) # rest))"

text \<open>The outer loop \<^verbatim>\<open>for i in range(hold_rows)\<close>.\<close>

fun del_rows_loop ::
  "(string \<times> pyval list) list \<Rightarrow> bool list \<Rightarrow> nat list \<Rightarrow> star \<Rightarrow> (error \<times> star) + star" where
  "del_rows_loop hold lut [] t = Inr t"
| "del_rows_loop hold lut (i # js) t =
     (if lut ! i then del_rows_loop hold lut js t
      else (case append_row hold i (data t) of
              Inl (e, d) \<Rightarrow> Inl (e, t\<lparr>data := d\<rparr>)
            | Inr d \<Rightarrow> del_rows_loop hold lut js (t\<lparr>data := d, rows := rows t + 1\<rparr>)))"

definition del_rows :: "star \<Rightarrow> int list \<Rightarrow> (error \<times> star) + star" where
  "del_rows t ids =
     (if ids = [] then Inr t
      else (let hold_data = data t;
                hold_rows = rows t;
                t0 = t\<lparr>rows := 0, data := map (\<lambda>(key, col). (key, [])) hold_data\<rparr>
            in case mark_ids hold_rows ids of
                 Inl e \<Rightarrow> Inl (e, t0)
               | Inr ids_lut \<Rightarrow> del_rows_loop hold_data ids_lut [0..<hold_rows] t0))"

section \<open>Sequences of structural operations and the data-model invariant\<close>

datatype op =
    AddRow "(string, pyval) alist"
  | DelRows "int list"
  | AddColumn string colarg bool
  | DelColumn string

fun apply_op :: "pyenv \<Rightarrow> star \<Rightarrow> op \<Rightarrow> (error \<times> star) + star" where
  "apply_op E t (AddRow kwargs) = add_row E t kwargs"
| "apply_op E t (DelRows ids) = del_rows t ids"
| "apply_op E t (AddColumn key val no_parse) = add_column E t key val no_parse"
| "apply_op E t (DelColumn key) = del_column t key"

text \<open>A sequence of calls none of which raises: \<open>Some\<close> the object after the last one.\<close>

fun run_ops :: "pyenv \<Rightarrow> star \<Rightarrow> op list \<Rightarrow> star option" where
  "run_ops E t [] = Some t"
| "run_ops E t (x # xs) = (case apply_op E t x of Inl r \<Rightarrow> None | Inr t' \<Rightarrow> run_ops E t' xs)"

text \<open>
  The invariants of the data model: the column names are distinct, \<^verbatim>\<open>__dtypes\<close> runs
  in step with \<^verbatim>\<open>__cols\<close>, the dictionary holds exactly the columns, and every
  column is \<^verbatim>\<open>__rows\<close> long.
\<close>

definition star_inv :: "star \<Rightarrow> bool" where
  "star_inv t \<longleftrightarrow>
     distinct (cols t) \<and> length (dtypes t) = length (cols t) \<and>
     distinct (map fst (data t)) \<and> set (map fst (data t)) = set (cols t) \<and>
     list_all (\<lambda>(k, col). length col = rows t) (data t)"

text \<open>
  The rows of an \<open>n\<close>-row table that no index of \<open>ids\<close> addresses, when a row \<open>j\<close> is
  addressed by \<open>j\<close> and by \<open>j - n\<close>.
\<close>

definition surviving :: "nat \<Rightarrow> int list \<Rightarrow> nat list" where
  "surviving n ids = filter (\<lambda>j. int j \<notin> set ids \<and> int j - int n \<notin> set ids) [0..<n]"

section \<open>Concrete instances for evaluation\<close>

text \<open>
  An environment to evaluate the definitions with: decimal literals are taken
  exactly, floats print like integers with \<^verbatim>\<open>.0\<close>, a set iterates in ascending
  order, \<^verbatim>\<open>argsort\<close> is the stable sort, and the numerical kernels return zero.  The
  theorems below hold for every environment; this one only serves the closed
  instances.
\<close>

definition demo_str_float :: "pyfloat \<Rightarrow> string" where
  "demo_str_float f =
     (case f of
        Fin q \<Rightarrow> str_int \<lfloor>q\<rfloor> @ ''.0''
      | PInf \<Rightarrow> ''inf'' | NInf \<Rightarrow> ''-inf'' | NaN \<Rightarrow> ''nan'')"

definition stable_argsort :: "int list \<Rightarrow> nat list" where
  "stable_argsort xs = sort_key (\<lambda>i. xs ! i) [0..<length xs]"

definition demo_env :: pyenv where
  "demo_env =
     \<lparr>round_float = Fin, str_float = demo_str_float,
      set_order = (\<lambda>xs. sort (remdups xs)), argsort = stable_argsort,
      angle_kernel = (\<lambda>a b v. Inr (Fin 0)), coord_kernel = (\<lambda>c ob. Inr [Fin 0, Fin 0, Fin 0]),
      shift_kernel = (\<lambda>c cr. Fin 0)\<rparr>"

text \<open>A table of two columns without rows, and one with the class ids 1, 1, 2.\<close>

definition two_cols :: star where
  "two_cols =
     Star_init\<lparr>data := [(''_rlnImageName'', []), (''_rlnClassNumber'', [])],
       dtypes := [TStr, TInt], cols := [''_rlnImageName'', ''_rlnClassNumber'']\<rparr>"

definition three_rows :: star where
  "three_rows =
     Star_init\<lparr>data := [(''_rlnImageName'', [VStr ''a.mrc'', VStr ''b.mrc'', VStr ''c.mrc'']),
                        (''_rlnClassNumber'', [VInt 1, VInt 1, VInt 2])],
       dtypes := [TStr, TInt], rows := 3, cols := [''_rlnImageName'', ''_rlnClassNumber'']\<rparr>"

definition build_three_rows :: "op list" where
  "build_three_rows =
     [AddColumn ''_rlnImageName'' (Scalar (VInt (- 1))) False,
      AddColumn ''_rlnClassNumber'' (Scalar (VInt (- 1))) False,
      AddRow (Alist [(''_rlnImageName'', VStr ''a.mrc''), (''_rlnClassNumber'', VInt 1)]),
      AddRow (Alist [(''_rlnClassNumber'', VStr '' 1''), (''_rlnImageName'', VStr ''b.mrc'')]),
      AddRow (Alist [(''_rlnImageName'', VStr ''c.mrc''), (''_rlnClassNumber'', VInt 2)])]"

section \<open>Partition by class: split\_class\<close>

text \<open>
  The class column is read twice: as a Python list, for \<^verbatim>\<open>set(classes)\<close>, and through
  \<^verbatim>\<open>np.asarray(classes, dtype=np.int)\<close>, which raises OverflowError on an integer
  outside the 64-bit range.  Only a column of Python integers is modelled.
\<close>

fun as_ints :: "pyval list \<Rightarrow> int list option" where
  "as_ints [] = Some []"
| "as_ints (v # vs) =
     (case v of VInt i \<Rightarrow> (case as_ints vs of None \<Rightarrow> None | Some js \<Rightarrow> Some (i # js))
      | _ \<Rightarrow> None)"

definition in_int64 :: "int \<Rightarrow> bool" where
  "in_int64 i = (- (2 ^ 63) \<le> i \<and> i < 2 ^ 63)"

text \<open>\<^verbatim>\<open>for key in keys: star.add_column(key)\<close>, with the defaults \<^verbatim>\<open>val=-1, no_parse=False\<close>.\<close>

fun new_star_cols :: "pyenv \<Rightarrow> star \<Rightarrow> string list \<Rightarrow> error + star" where
  "new_star_cols E s [] = Inr s"
| "new_star_cols E s (key # keys) =
     (case add_column E s key (Scalar (VInt (- 1))) False of
        Inl (e, s') \<Rightarrow> Inl e
      | Inr s' \<Rightarrow> new_star_cols E s' keys)"

text \<open>
  \<^verbatim>\<open>kwargs = dict(); for key in keys: kwargs[key] = self.get_element(key, row)\<close>.  The
  dictionary is iterated in the order its keys were inserted; Python 2 iterates in
  hash order, which changes nothing but the exception reported when several cells of
  one row fail.
\<close>

fun row_kwargs :: "star \<Rightarrow> string list \<Rightarrow> int \<Rightarrow> (string, pyval) alist \<Rightarrow> error + (string, pyval) alist" where
  "row_kwargs t [] row kw = Inr kw"
| "row_kwargs t (key # keys) row kw =
     (case get_element t key row of
        Inl e \<Rightarrow> Inl e
      | Inr v \<Rightarrow> row_kwargs t keys row (DAList.update key v kw))"

text \<open>\<^verbatim>\<open>for row in rows: ...; star.add_row(**kwargs)\<close>.\<close>

fun copy_rows :: "pyenv \<Rightarrow> star \<Rightarrow> string list \<Rightarrow> nat list \<Rightarrow> star \<Rightarrow> error + star" where
  "copy_rows E t keys [] s = Inr s"
| "copy_rows E t keys (row # rws) s =
     (case row_kwargs t keys (int row) DAList.empty of
        Inl e \<Rightarrow> Inl e
      | Inr kw \<Rightarrow>
          (case add_row E s kw of
             Inl (e, s') \<Rightarrow> Inl e
           | Inr s' \<Rightarrow> copy_rows E t keys rws s'))"

text \<open>\<^verbatim>\<open>np.where(classes == class_id)[0]\<close>: the positions of a class id, ascending.\<close>

definition class_rows :: "int list \<Rightarrow> int \<Rightarrow> nat list" where
  "class_rows classes c = filter (\<lambda>i. classes ! i = c) [0..<length classes]"

fun split_loop :: "pyenv \<Rightarrow> star \<Rightarrow> int list \<Rightarrow> string list \<Rightarrow> int list \<Rightarrow> error + star list" where
  "split_loop E t classes keys [] = Inr []"
| "split_loop E t classes keys (c # cs) =
     (case new_star_cols E Star_init keys of
        Inl e \<Rightarrow> Inl e
      | Inr s0 \<Rightarrow>
          (case copy_rows E t keys (class_rows classes c) s0 of
             Inl e \<Rightarrow> Inl e
           | Inr s \<Rightarrow>
               (case split_loop E t classes keys cs of
                  Inl e \<Rightarrow> Inl e
                | Inr ss \<Rightarrow> Inr (s # ss))))"

definition split_class :: "pyenv \<Rightarrow> star \<Rightarrow> error + star list" where
  "split_class E t =
     (if \<not> has_column t ''_rlnClassNumber''
      then Inl (PySegInputError ''split_class (Star)'' ''No _rlnClassNumber column found!'')
      else (case get_column_data t ''_rlnClassNumber'' of
              Inl e \<Rightarrow> Inl e
            | Inr None \<Rightarrow> Inl TypeError
            | Inr (Some raw) \<Rightarrow>
                (case as_ints raw of
                   None \<Rightarrow> Inl NotModelled
                 | Some classes \<Rightarrow>
                     if list_all in_int64 classes
                     then split_loop E t classes (get_column_keys t) (set_order E classes)
                     else Inl OverflowError)))"

text \<open>
  What the amended claim speaks of.  A cell has the type of its column; a table is
  registry-typed when every column name is in the registry, carries the registry's
  type and holds cells of that type.  \<open>sub_table t rws\<close> is the fresh table with the
  columns of \<open>t\<close> and the rows \<open>rws\<close> of \<open>t\<close>, in that order.
\<close>

definition has_type :: "dtype \<Rightarrow> pyval \<Rightarrow> bool" where
  "has_type d v =
     (case v of VStr s \<Rightarrow> d = TStr | VInt i \<Rightarrow> d = TInt | VFloat f \<Rightarrow> d = TFloat)"

definition reg_dtype :: "string \<Rightarrow> dtype" where
  "reg_dtype k = (case get_dtype k of None \<Rightarrow> TFloat | Some d \<Rightarrow> d)"

definition registry_typed :: "star \<Rightarrow> bool" where
  "registry_typed t \<longleftrightarrow>
     list_all is_valid (cols t) \<and>
     dtypes t = map reg_dtype (cols t) \<and>
     list_all (\<lambda>(k, col). list_all (has_type (reg_dtype k)) col) (data t)"

definition column_of :: "star \<Rightarrow> string \<Rightarrow> pyval list" where
  "column_of t k = (case map_of (data t) k of None \<Rightarrow> [] | Some col \<Rightarrow> col)"

definition sub_table :: "star \<Rightarrow> nat list \<Rightarrow> star" where
  "sub_table t rws =
     Star_init\<lparr>data := map (\<lambda>k. (k, map ((!) (column_of t k)) rws)) (cols t),
       dtypes := dtypes t, rows := length rws, cols := cols t\<rparr>"

definition set_order_ok :: "pyenv \<Rightarrow> bool" where
  "set_order_ok E \<longleftrightarrow> (\<forall>xs. distinct (set_order E xs) \<and> set (set_order E xs) = set xs)"

text \<open>A table with a column admitted through \<^verbatim>\<open>no_parse=True\<close>, and the calls that build it.\<close>

definition bypass_table :: star where
  "bypass_table =
     Star_init\<lparr>data := [(''_rlnClassNumber'', [VInt 1]), (''myScore'', [VFloat (Fin 0)])],
       dtypes := [TInt, TFloat], rows := 1, cols := [''_rlnClassNumber'', ''myScore'']\<rparr>"

definition build_bypass_table :: "op list" where
  "build_bypass_table =
     [AddColumn ''_rlnClassNumber'' (Scalar (VInt (- 1))) False,
      AddColumn ''myScore'' (Scalar (VInt (- 1))) True,
      AddRow (Alist [(''_rlnClassNumber'', VInt 1), (''myScore'', VFloat (Fin 0))])]"

section \<open>Alignment scoring: compute\_malign\<close>

text \<open>
  Python's \<^verbatim>\<open>==\<close> on the values of a table: an integer equals the float of the same
  value, and a NaN equals nothing.
\<close>

definition py_eq :: "pyval \<Rightarrow> pyval \<Rightarrow> bool" where
  "py_eq a b =
     (case (a, b) of
        (VStr s, VStr u) \<Rightarrow> s = u
      | (VInt i, VInt j) \<Rightarrow> i = j
      | (VInt i, VFloat g) \<Rightarrow> g = Fin (of_int i)
      | (VFloat f, VInt j) \<Rightarrow> f = Fin (of_int j)
      | (VFloat f, VFloat g) \<Rightarrow> f = g \<and> f \<noteq> NaN
      | _ \<Rightarrow> False)"

text \<open>\<^verbatim>\<open>col.index(val)\<close> under that equality; \<open>None\<close> where Python raises ValueError.\<close>

fun py_index :: "pyval list \<Rightarrow> pyval \<Rightarrow> nat option" where
  "py_index [] x = None"
| "py_index (y # ys) x = (if py_eq y x then Some 0 else map_option Suc (py_index ys x))"

definition find_element :: "star \<Rightarrow> string \<Rightarrow> pyval \<Rightarrow> error + nat" where
  "find_element t key val =
     (case map_of (data t) key of
        None \<Rightarrow> Inl KeyError
      | Some col \<Rightarrow> (case py_index col val of None \<Rightarrow> Inl ValueError | Some j \<Rightarrow> Inr j))"

text \<open>\<^verbatim>\<open>get_elements\<close>: the cells of one row under a list of keys, in that order.\<close>

fun get_elements :: "star \<Rightarrow> string list \<Rightarrow> int \<Rightarrow> error + pyval list" where
  "get_elements t [] row = Inr []"
| "get_elements t (key # keys) row =
     (case get_element t key row of
        Inl e \<Rightarrow> Inl e
      | Inr v \<Rightarrow> (case get_elements t keys row of Inl e \<Rightarrow> Inl e | Inr vs \<Rightarrow> Inr (v # vs)))"

text \<open>The origin of a row; \<^verbatim>\<open>except KeyError\<close> turns a missing origin column into zeros.\<close>

definition origin_or_zero :: "star \<Rightarrow> int \<Rightarrow> error + pyval list" where
  "origin_or_zero t row =
     (case get_elements t [''_rlnOriginX'', ''_rlnOriginY'', ''_rlnOriginZ''] row of
        Inl e \<Rightarrow> if e = KeyError then Inr [VFloat (Fin 0), VFloat (Fin 0), VFloat (Fin 0)] else Inl e
      | Inr vs \<Rightarrow> Inr vs)"

text \<open>
  One pass of the particles loop.  \<open>Inr None\<close> is the \<^verbatim>\<open>continue\<close> of a row whose
  image name the reference table does not hold; \<open>Inr (Some (a, s))\<close> are the two
  scores of a row that was found.  The angles are read in the order rot, psi, tilt and
  handed to \<^verbatim>\<open>rot_mat_relion\<close> in the order rot, tilt, psi.
\<close>

definition malign_row :: "pyenv \<Rightarrow> star \<Rightarrow> star \<Rightarrow> pyfloat list \<Rightarrow> nat \<Rightarrow> error + (pyfloat \<times> pyfloat) option" where
  "malign_row E t ref ref_vect i =
     (case get_element t ''_rlnImageName'' (int i) of
        Inl e \<Rightarrow> Inl e
      | Inr p_name \<Rightarrow>
     (case find_element ref ''_rlnImageName'' p_name of
        Inl e \<Rightarrow> if e = ValueError then Inr None else Inl e
      | Inr j \<Rightarrow>
     (case get_elements t [''_rlnAngleRot'', ''_rlnAnglePsi'', ''_rlnAngleTilt''] (int i) of
        Inl e \<Rightarrow> Inl e
      | Inr a \<Rightarrow>
     (case get_elements ref [''_rlnAngleRot'', ''_rlnAnglePsi'', ''_rlnAngleTilt''] (int j) of
        Inl e \<Rightarrow> Inl e
      | Inr ra \<Rightarrow>
     (case angle_kernel E [a ! 0, a ! 2, a ! 1] [ra ! 0, ra ! 2, ra ! 1] ref_vect of
        Inl e \<Rightarrow> Inl e
      | Inr ang \<Rightarrow>
     (case get_elements t [''_rlnCoordinateX'', ''_rlnCoordinateY'', ''_rlnCoordinateZ''] (int i) of
        Inl e \<Rightarrow> Inl e
      | Inr c \<Rightarrow>
     (case origin_or_zero t (int i) of
        Inl e \<Rightarrow> Inl e
      | Inr ob \<Rightarrow>
     (case coord_kernel E c ob of
        Inl e \<Rightarrow> Inl e
      | Inr coord \<Rightarrow>
     (case get_elements ref [''_rlnCoordinateX'', ''_rlnCoordinateY'', ''_rlnCoordinateZ''] (int j) of
        Inl e \<Rightarrow> Inl e
      | Inr cr \<Rightarrow>
     (case origin_or_zero ref (int j) of
        Inl e \<Rightarrow> Inl e
      | Inr obr \<Rightarrow>
     (case coord_kernel E cr obr of
        Inl e \<Rightarrow> Inl e
      | Inr coord_r \<Rightarrow> Inr (Some (ang, shift_kernel E coord coord_r)))))))))))))"

text \<open>The loop \<^verbatim>\<open>for i in range(n_parts)\<close> over the two result arrays.\<close>

fun malign_loop ::
  "pyenv \<Rightarrow> star \<Rightarrow> star \<Rightarrow> pyfloat list \<Rightarrow> nat list \<Rightarrow> pyfloat list \<times> pyfloat list \<Rightarrow>
     error + pyfloat list \<times> pyfloat list" where
  "malign_loop E t ref ref_vect [] acc = Inr acc"
| "malign_loop E t ref ref_vect (i # js) acc =
     (case malign_row E t ref ref_vect i of
        Inl e \<Rightarrow> Inl e
      | Inr None \<Rightarrow> malign_loop E t ref ref_vect js acc
      | Inr (Some (a, s)) \<Rightarrow>
          malign_loop E t ref ref_vect js ((fst acc)[i := a], (snd acc)[i := s]))"

definition sentinel :: pyfloat where
  "sentinel = Fin (- 1)"

definition compute_malign ::
  "pyenv \<Rightarrow> star \<Rightarrow> star \<Rightarrow> pyfloat list \<Rightarrow> error + pyfloat list \<times> pyfloat list" where
  "compute_malign E t ref ref_vect =
     (let n_parts = get_nrows t
      in malign_loop E t ref ref_vect [0..<n_parts]
           (replicate n_parts sentinel, replicate n_parts sentinel))"

text \<open>Two tables with poses: two particles, and a reference that holds the second one.\<close>

definition pose_table :: star where
  "pose_table =
     Star_init\<lparr>data := [(''_rlnImageName'', [VStr ''a.mrc'', VStr ''b.mrc'']),
                        (''_rlnAngleRot'', [VFloat (Fin 10), VFloat (Fin 20)]),
                        (''_rlnAngleTilt'', [VFloat (Fin 30), VFloat (Fin 40)]),
                        (''_rlnAnglePsi'', [VFloat (Fin 50), VFloat (Fin 60)]),
                        (''_rlnCoordinateX'', [VFloat (Fin 1), VFloat (Fin 2)]),
                        (''_rlnCoordinateY'', [VFloat (Fin 3), VFloat (Fin 4)]),
                        (''_rlnCoordinateZ'', [VFloat (Fin 5), VFloat (Fin 6)])],
       dtypes := [TStr, TFloat, TFloat, TFloat, TFloat, TFloat, TFloat], rows := 2,
       cols := [''_rlnImageName'', ''_rlnAngleRot'', ''_rlnAngleTilt'', ''_rlnAnglePsi'',
                ''_rlnCoordinateX'', ''_rlnCoordinateY'', ''_rlnCoordinateZ'']\<rparr>"

definition pose_ref :: star where
  "pose_ref =
     Star_init\<lparr>data := [(''_rlnImageName'', [VStr ''b.mrc'']),
                        (''_rlnAngleRot'', [VFloat (Fin 20)]),
                        (''_rlnAngleTilt'', [VFloat (Fin 40)]),
                        (''_rlnAnglePsi'', [VFloat (Fin 60)]),
                        (''_rlnCoordinateX'', [VFloat (Fin 2)]),
                        (''_rlnCoordinateY'', [VFloat (Fin 4)]),
                        (''_rlnCoordinateZ'', [VFloat (Fin 6)])],
       dtypes := [TStr, TFloat, TFloat, TFloat, TFloat, TFloat, TFloat], rows := 1,
       cols := [''_rlnImageName'', ''_rlnAngleRot'', ''_rlnAngleTilt'', ''_rlnAnglePsi'',
                ''_rlnCoordinateX'', ''_rlnCoordinateY'', ''_rlnCoordinateZ'']\<rparr>"

section \<open>Group consolidation: particle\_group\<close>

text \<open>
  The first \<^verbatim>\<open>try\<close> block: the distinct group ids, in the order the set iterates
  them, and the number of rows of each.  \<^verbatim>\<open>get_column_data\<close> returns \<^verbatim>\<open>None\<close> when
  there is no group column, and \<^verbatim>\<open>set(None)\<close> raises TypeError.  Only a column of
  Python integers is modelled.
\<close>

fun count_groups :: "star \<Rightarrow> int list \<Rightarrow> nat list \<Rightarrow> int list \<Rightarrow> error + int list" where
  "count_groups t curr_gp [] nparts_gp = Inr nparts_gp"
| "count_groups t curr_gp (row # rws) nparts_gp =
     (case get_element t ''_rlnGroupNumber'' (int row) of
        Inl e \<Rightarrow> Inl e
      | Inr gp \<Rightarrow>
          (case gp of
             VInt g \<Rightarrow>
               (case list_index curr_gp g of
                  None \<Rightarrow> Inl ValueError
                | Some idx \<Rightarrow> count_groups t curr_gp rws (nparts_gp[idx := nparts_gp ! idx + 1]))
           | _ \<Rightarrow> Inl NotModelled))"

definition groups_from_column :: "pyenv \<Rightarrow> star \<Rightarrow> error + int list \<times> int list" where
  "groups_from_column E t =
     (case get_column_data t ''_rlnGroupNumber'' of
        Inl e \<Rightarrow> Inl e
      | Inr None \<Rightarrow> Inl TypeError
      | Inr (Some col) \<Rightarrow>
          (case as_ints col of
             None \<Rightarrow> Inl NotModelled
           | Some ids \<Rightarrow>
               (let curr_gp = set_order E ids in
                case count_groups t curr_gp [0..<get_nrows t] (replicate (length curr_gp) 0) of
                  Inl e \<Rightarrow> Inl e
                | Inr nparts_gp \<Rightarrow> Inr (curr_gp, nparts_gp))))"

text \<open>
  The handler of the first \<^verbatim>\<open>except ValueError\<close>: one group per row position of the
  \<^verbatim>\<open>_rlnImageName\<close> column, counted at the first position of each name
  (\<^verbatim>\<open>mics.index(mic)\<close> finds the cell itself at the latest), and then the whole new
  group column set to \<^verbatim>\<open>curr_gp[0]\<close>.  \<^verbatim>\<open>len(None)\<close> raises TypeError when there
  is no image-name column.
\<close>

fun count_names :: "star \<Rightarrow> pyval list \<Rightarrow> nat list \<Rightarrow> int list \<Rightarrow> error + int list" where
  "count_names t mics [] nparts_gp = Inr nparts_gp"
| "count_names t mics (row # rws) nparts_gp =
     (case get_element t ''_rlnImageName'' (int row) of
        Inl e \<Rightarrow> Inl e
      | Inr mic \<Rightarrow>
          (let idx = (case py_index mics mic of None \<Rightarrow> row | Some k \<Rightarrow> k)
           in count_names t mics rws (nparts_gp[idx := nparts_gp ! idx + 1])))"

definition groups_from_names :: "star \<Rightarrow> error + int list \<times> int list" where
  "groups_from_names t =
     (case get_column_data t ''_rlnImageName'' of
        Inl e \<Rightarrow> Inl e
      | Inr None \<Rightarrow> Inl TypeError
      | Inr (Some mics) \<Rightarrow>
          (case count_names t mics [0..<get_nrows t] (replicate (length mics) 0) of
             Inl e \<Rightarrow> Inl e
           | Inr nparts_gp \<Rightarrow> Inr (map int [0..<length mics], nparts_gp)))"

definition groups_fallback :: "pyenv \<Rightarrow> star \<Rightarrow> error + (int list \<times> int list) \<times> star" where
  "groups_fallback E t =
     (case (case groups_from_names t of
              Inl e \<Rightarrow> if e = ValueError then Inr ([1], [int (get_nrows t)]) else Inl e
            | Inr cn \<Rightarrow> Inr cn) of
        Inl e \<Rightarrow> Inl e
      | Inr (curr_gp, nparts_gp) \<Rightarrow>
          (case curr_gp of
             [] \<Rightarrow> Inl IndexError
           | g0 # rest \<Rightarrow>
               (case add_column E t ''_rlnGroupNumber'' (Scalar (VInt g0)) False of
                  Inl (e, t') \<Rightarrow> Inl e
                | Inr t' \<Rightarrow> Inr ((curr_gp, nparts_gp), t'))))"

text \<open>
  The relabelling table \<^verbatim>\<open>lut_gp = np.arange(0, np.asarray(curr_gp).max() + 1)\<close>: an
  id beyond 64 bits raises OverflowError in \<^verbatim>\<open>asarray\<close>, the maximum of no ids raises
  ValueError, and \<^verbatim>\<open>max() + 1\<close> is 64-bit arithmetic that wraps around at \<open>2^63 - 1\<close>.
  A stop that is not positive gives an empty table.  (The memory the table takes
  is not modelled.)
\<close>

definition list_max :: "int list \<Rightarrow> int" where
  "list_max xs = foldl max (hd xs) (tl xs)"

definition init_lut :: "int list \<Rightarrow> error + int list" where
  "init_lut curr_gp =
     (if \<not> list_all in_int64 curr_gp then Inl OverflowError
      else if curr_gp = [] then Inl ValueError
      else Inr (map int [0..<nat (wrap64 (list_max curr_gp + 1))]))"

text \<open>
  The loop \<^verbatim>\<open>for i in range(len(lut_gp))\<close>: \<^verbatim>\<open>curr_gp[min_ids[0]]\<close> is read in every
  pass and \<^verbatim>\<open>curr_gp[min_ids[1]]\<close> only in a pass that finds the old id.
\<close>

definition relabel :: "int list \<Rightarrow> int list \<Rightarrow> nat \<Rightarrow> nat \<Rightarrow> error + int list" where
  "relabel lut_gp curr_gp m0 m1 =
     (if lut_gp = [] then Inr lut_gp
      else if length curr_gp \<le> m0 then Inl IndexError
      else if curr_gp ! m0 \<in> set lut_gp then
        (if length curr_gp \<le> m1 then Inl IndexError
         else Inr (map (\<lambda>x. if x = curr_gp ! m0 then curr_gp ! m1 else x) lut_gp))
      else Inr lut_gp)"

text \<open>
  The \<^verbatim>\<open>while\<close> loop, returning its three variables.  \<^verbatim>\<open>min_gp=None\<close> compares below
  every integer in Python 2, so the first pass breaks.  \<^verbatim>\<open>lut_gp[...]\<close> is a numpy
  array indexed by a group id: a negative id counts from the end.
\<close>

function merge_loop ::
  "pyenv \<Rightarrow> int option \<Rightarrow> int list \<Rightarrow> int list \<Rightarrow> int list \<Rightarrow>
     error + int list \<times> int list \<times> int list" where
  "merge_loop E min_gp curr_gp nparts_gp lut_gp =
     (if length (remdups curr_gp) \<le> 1 then Inr (curr_gp, nparts_gp, lut_gp)
      else
        (let min_ids = argsort E nparts_gp in
         if min_ids = [] then Inl IndexError
         else
           (let m0 = min_ids ! 0 in
            if length nparts_gp \<le> m0 then Inl IndexError
            else if (case min_gp of None \<Rightarrow> True | Some g \<Rightarrow> g < nparts_gp ! m0) \<or> length min_ids \<le> 1
            then Inr (curr_gp, nparts_gp, lut_gp)
            else
              (let m1 = min_ids ! 1 in
               case relabel lut_gp curr_gp m0 m1 of
                 Inl e \<Rightarrow> Inl e
               | Inr lut1 \<Rightarrow>
                   if length curr_gp \<le> m1 \<or> length curr_gp \<le> m0 then Inl IndexError
                   else
                     (case np_index (length lut1) (curr_gp ! m0) of
                        Inl e \<Rightarrow> Inl e
                      | Inr k \<Rightarrow>
                          if length nparts_gp \<le> m1 then Inl IndexError
                          else merge_loop E min_gp (pop_at m0 curr_gp)
                                 (pop_at m0 (nparts_gp[m1 := nparts_gp ! m1 + nparts_gp ! m0]))
                                 (lut1[k := curr_gp ! m1]))))))"
  by pat_completeness auto
termination
  by (relation "measure (\<lambda>(E, min_gp, curr_gp, nparts_gp, lut_gp). length curr_gp)")
     (auto simp: pop_at_def)

declare merge_loop.simps [simp del]

text \<open>The last loop: \<^verbatim>\<open>new_gp[row] = lut_gp[old_gp]\<close> for every row.\<close>

fun new_groups :: "star \<Rightarrow> int list \<Rightarrow> nat list \<Rightarrow> error + int list" where
  "new_groups t lut_gp [] = Inr []"
| "new_groups t lut_gp (row # rws) =
     (case get_element t ''_rlnGroupNumber'' (int row) of
        Inl e \<Rightarrow> Inl e
      | Inr old_gp \<Rightarrow>
          (case old_gp of
             VInt g \<Rightarrow>
               (case np_index (length lut_gp) g of
                  Inl e \<Rightarrow> Inl e
                | Inr k \<Rightarrow>
                    (case new_groups t lut_gp rws of
                       Inl e \<Rightarrow> Inl e
                     | Inr ns \<Rightarrow> Inr (lut_gp ! k # ns)))
           | _ \<Rightarrow> Inl NotModelled))"

text \<open>\<^verbatim>\<open>set_column_data\<close> does nothing for an unknown column or a wrong length.\<close>

definition set_column_data :: "star \<Rightarrow> string \<Rightarrow> pyval list \<Rightarrow> star" where
  "set_column_data t key dat =
     (if is_column t key \<and> length dat = get_nrows t
      then t\<lparr>data := AList.update key dat (data t)\<rparr>
      else t)"

definition merge_and_set ::
  "pyenv \<Rightarrow> int option \<Rightarrow> star \<Rightarrow> int list \<times> int list \<Rightarrow> error + star" where
  "merge_and_set E min_gp t cn =
     (case init_lut (fst cn) of
        Inl e \<Rightarrow> Inl e
      | Inr lut0 \<Rightarrow>
          (case merge_loop E min_gp (fst cn) (snd cn) lut0 of
             Inl e \<Rightarrow> Inl e
           | Inr (curr_gp, nparts_gp, lut_gp) \<Rightarrow>
               (case new_groups t lut_gp [0..<get_nrows t] of
                  Inl e \<Rightarrow> Inl e
                | Inr new_gp \<Rightarrow> Inr (set_column_data t ''_rlnGroupNumber'' (map VInt new_gp)))))"

text \<open>
  \<^verbatim>\<open>particle_group\<close>: \<open>Inr\<close> the table after the call, or \<open>Inl\<close> the exception
  raised (the table a failing call leaves behind is not tracked here).
\<close>

definition particle_group :: "pyenv \<Rightarrow> star \<Rightarrow> int option \<Rightarrow> error + star" where
  "particle_group E t min_gp =
     (case groups_from_column E t of
        Inr cn \<Rightarrow> merge_and_set E min_gp t cn
      | Inl e \<Rightarrow>
          if e = ValueError then
            (case groups_fallback E t of
               Inl e' \<Rightarrow> Inl e'
             | Inr (cn, t') \<Rightarrow> merge_and_set E min_gp t' cn)
          else Inl e)"





text \<open>A table of three particles on two micrographs, without a group column.\<close>

definition micrograph_table :: star where
  "micrograph_table =
     Star_init\<lparr>data := [(''_rlnMicrographName'', [VStr ''t1.mrc'', VStr ''t1.mrc'', VStr ''t2.mrc'']),
                        (''_rlnImageName'', [VStr ''a.mrc'', VStr ''b.mrc'', VStr ''c.mrc''])],
       dtypes := [TStr, TStr], rows := 3, cols := [''_rlnMicrographName'', ''_rlnImageName'']\<rparr>"


section \<open>The text codec: to\_string and load\<close>

text \<open>\<^verbatim>\<open>s.split()\<close>: the maximal runs of characters that are not white space.\<close>

fun split_acc :: "string \<Rightarrow> string \<Rightarrow> string list" where
  "split_acc tok [] = (if tok = [] then [] else [tok])"
| "split_acc tok (c # cs) =
     (if py_isspace c then (if tok = [] then split_acc [] cs else tok # split_acc [] cs)
      else split_acc (tok @ [c]) cs)"

definition py_split :: "string \<Rightarrow> string list" where
  "py_split s = split_acc [] s"



text \<open>\<^verbatim>\<open>os.path.split\<close> (posixpath).\<close>

definition path_split :: "string \<Rightarrow> string \<times> string" where
  "path_split p =
     (let tail = rev (takeWhile (\<lambda>c. c \<noteq> CHR ''/'') (rev p));
          head = take (length p - length tail) p
      in (if head \<noteq> [] \<and> \<not> list_all (\<lambda>c. c = CHR ''/'') head
          then rev (dropWhile (\<lambda>c. c = CHR ''/'') (rev head)) else head, tail))"

subsection \<open>to\_string\<close>






subsection \<open>load\<close>

text \<open>
  \<open>load E t path lines\<close>: \<open>lines\<close> is what \<^verbatim>\<open>readlines()\<close> gave for the file \<open>path\<close>.
  The result is \<open>Inr\<close> the object after the call or \<open>Inl\<close> the exception (the object
  a failed load leaves behind is not tracked).  \<^verbatim>\<open>lines[lidx][0]\<close> raises IndexError
  on an empty line, which \<^verbatim>\<open>readlines\<close> never produces.
\<close>

text \<open>The first loop: the lines before the first one that starts with an underscore.\<close>

fun take_header :: "string list \<Rightarrow> error + string list \<times> string list" where
  "take_header [] = Inr ([], [])"
| "take_header (l # ls) =
     (case l of
        [] \<Rightarrow> Inl IndexError
      | c # cs \<Rightarrow>
          if c \<noteq> CHR ''_'' then
            (case take_header ls of Inl e \<Rightarrow> Inl e | Inr (h, r) \<Rightarrow> Inr (l # h, r))
          else Inr ([], l # ls))"

definition header_msg :: "string \<Rightarrow> string" where
  "header_msg path = ''Unexpected error parsing star file '' @ path @ '' header.''"

text \<open>
  The second loop: one column per line that starts with an underscore.  The name
  must be in the registry (so \<^verbatim>\<open>get_dtype\<close> finds its type) and not yet a column.
\<close>

fun load_cols :: "string \<Rightarrow> star \<Rightarrow> string list \<Rightarrow> error + star \<times> string list" where
  "load_cols path t [] = Inr (t, [])"
| "load_cols path t (l # ls) =
     (case l of
        [] \<Rightarrow> Inl IndexError
      | c # cs \<Rightarrow>
          if c = CHR ''_'' then
            (case py_split l of
               [] \<Rightarrow> Inl IndexError
             | col # toks \<Rightarrow>
                 (case get_dtype col of
                    Some dtype \<Rightarrow>
                      if \<not> is_column t col
                      then load_cols path
                             (t\<lparr>data := AList.update col [] (data t),
                                dtypes := dtypes t @ [dtype], cols := cols t @ [col]\<rparr>) ls
                      else Inl (PySegInputError ''load (Star)'' (header_msg path))
                  | None \<Rightarrow> Inl (PySegInputError ''load (Star)'' (header_msg path))))
          else Inr (t, l # ls))"

text \<open>
  The cast of one token: \<^verbatim>\<open>dtype(d)\<close>, and when that raises ValueError and the column
  is an integer column, \<^verbatim>\<open>int(float(d))\<close>, whose own exceptions propagate.
\<close>

definition cast_token :: "pyenv \<Rightarrow> dtype \<Rightarrow> string \<Rightarrow> error + pyval" where
  "cast_token E dtype d =
     (case cast E dtype (VStr d) of
        Inr typed_d \<Rightarrow> Inr typed_d
      | Inl e \<Rightarrow>
          if e = ValueError then
            (if dtype = TInt then
               (case py_float E (VStr d) of
                  Inl e' \<Rightarrow> Inl e'
                | Inr f \<Rightarrow> (case py_int (VFloat f) of Inl e' \<Rightarrow> Inl e' | Inr i \<Rightarrow> Inr (VInt i)))
             else Inl ValueError)
          else Inl e)"

text \<open>The loop over \<^verbatim>\<open>zip(datas, self.__dtypes, self.__cols)\<close> of one data line.\<close>

fun load_row :: "pyenv \<Rightarrow> star \<Rightarrow> (string \<times> dtype \<times> string) list \<Rightarrow> error + star" where
  "load_row E t [] = Inr t"
| "load_row E t ((d, dtype, col) # rest) =
     (case cast_token E dtype d of
        Inl e \<Rightarrow> Inl e
      | Inr typed_d \<Rightarrow>
          (case map_of (data t) col of
             None \<Rightarrow> Inl KeyError
           | Some c \<Rightarrow> load_row E (t\<lparr>data := AList.update col (c @ [typed_d]) (data t)\<rparr>) rest))"

text \<open>The loop over the data lines, ended by the first line with another number of tokens.\<close>

fun load_rows :: "pyenv \<Rightarrow> star \<Rightarrow> string list \<Rightarrow> error + star" where
  "load_rows E t [] = Inr t"
| "load_rows E t (line # ls) =
     (let datas = py_split line in
      if get_ncols t \<noteq> length datas then Inr t
      else (case load_row E t (zip datas (zip (dtypes t) (cols t))) of
              Inl e \<Rightarrow> Inl e
            | Inr t' \<Rightarrow> load_rows E (t'\<lparr>rows := rows t' + 1\<rparr>) ls))"

definition load :: "pyenv \<Rightarrow> star \<Rightarrow> string \<Rightarrow> string list \<Rightarrow> error + star" where
  "load E t path lines =
     (case take_header lines of
        Inl e \<Rightarrow> Inl e
      | Inr (h, after_h) \<Rightarrow>
          (case load_cols path (t\<lparr>header_1 := h, cols := []\<rparr>) after_h of
             Inl e \<Rightarrow> Inl e
           | Inr (t1, after_c) \<Rightarrow>
               (case load_rows E t1 after_c of
                  Inl e \<Rightarrow> Inl e
                | Inr t2 \<Rightarrow>
                    Inr (t2\<lparr>root_dir := Some (fst (path_split path)),
                            fname := Some (snd (path_split path))\<rparr>))))"

subsection \<open>The cast of a token, as the amended claim words it\<close>

text \<open>
  A text column takes the token as it is.  A real column takes the value of a real
  literal and fails on anything else.  An integer column takes the value of an
  integer literal; failing that, the truncation toward zero of a real literal with a
  finite value; anything else fails, whether or not the token holds a decimal point.
\<close>

definition amended_cell :: "pyenv \<Rightarrow> dtype \<Rightarrow> string \<Rightarrow> error + pyval" where
  "amended_cell E dtype d =
     (case dtype of
        TStr \<Rightarrow> Inr (VStr d)
      | TFloat \<Rightarrow> (case float_of_str E d of None \<Rightarrow> Inl ValueError | Some f \<Rightarrow> Inr (VFloat f))
      | TInt \<Rightarrow>
          (case int_of_str d of
             Some i \<Rightarrow> Inr (VInt i)
           | None \<Rightarrow>
               (case float_of_str E d of
                  None \<Rightarrow> Inl ValueError
                | Some f \<Rightarrow>
                    (case f of
                       Fin q \<Rightarrow> Inr (VInt (trunc_zero q))
                     | NaN \<Rightarrow> Inl ValueError
                     | PInf \<Rightarrow> Inl OverflowError
                     | NInf \<Rightarrow> Inl OverflowError))))"

text \<open>The cells of one line, left to right; the first failure is the result.\<close>

fun amended_cells :: "pyenv \<Rightarrow> (string \<times> dtype) list \<Rightarrow> error + pyval list" where
  "amended_cells E [] = Inr []"
| "amended_cells E ((d, dtype) # rest) =
     (case amended_cell E dtype d of
        Inl e \<Rightarrow> Inl e
      | Inr v \<Rightarrow> (case amended_cells E rest of Inl e \<Rightarrow> Inl e | Inr vs \<Rightarrow> Inr (v # vs)))"

text \<open>
  The data lines, top to bottom, up to the first line that does not hold one token
  per column: the rows of cells, or the first failure.
\<close>

fun amended_rows :: "pyenv \<Rightarrow> dtype list \<Rightarrow> string list \<Rightarrow> error + pyval list list" where
  "amended_rows E dts [] = Inr []"
| "amended_rows E dts (line # ls) =
     (if length (py_split line) \<noteq> length dts then Inr []
      else (case amended_cells E (zip (py_split line) dts) of
              Inl e \<Rightarrow> Inl e
            | Inr vs \<Rightarrow>
                (case amended_rows E dts ls of Inl e \<Rightarrow> Inl e | Inr rws \<Rightarrow> Inr (vs # rws))))"

text \<open>The table holds the rows \<open>rws\<close>: cell \<open>j\<close> of every row in column \<open>j\<close>, top to bottom.\<close>

definition holds_rows :: "star \<Rightarrow> pyval list list \<Rightarrow> bool" where
  "holds_rows t rws \<longleftrightarrow>
     distinct (cols t) \<and> length (dtypes t) = length (cols t) \<and> rows t = length rws \<and>
     (\<forall>j < length (cols t). map_of (data t) (cols t ! j) = Some (map (\<lambda>r. r ! j) rws))"

text \<open>
  The lines of a file with a text column and an integer column.  The integer column
  holds a token with a decimal point, a token with an exponent and no point, and a
  plain integer.
\<close>

definition demo_lines :: "string list" where
  "demo_lines =
     [[NL], ''data_'' @ [NL], [NL], ''loop_'' @ [NL],
      ''_rlnImageName #1'' @ [NL], ''_rlnClassNumber #2'' @ [NL],
      ''a.mrc'' @ [TAB] @ ''2.7'' @ [NL],
      ''b.mrc'' @ [TAB] @ ''-1e1'' @ [NL],
      ''c.mrc'' @ [TAB] @ ''3'' @ [NL],
      [NL]]"

definition demo_loaded :: star where
  "demo_loaded =
     \<lparr>header_1 = [[NL], ''data_'' @ [NL], [NL], ''loop_'' @ [NL]],
      data = [(''_rlnImageName'', [VStr ''a.mrc'', VStr ''b.mrc'', VStr ''c.mrc'']),
              (''_rlnClassNumber'', [VInt 2, VInt (- 10), VInt 3])],
      dtypes = [TStr, TInt], rows = 3, cols = [''_rlnImageName'', ''_rlnClassNumber''],
      root_dir = Some ''run'', fname = Some ''f.star''\<rparr>"

text \<open>An integer column with one token: its header line and its data line.\<close>

definition one_token_lines :: "string \<Rightarrow> string list" where
  "one_token_lines tok = [''_rlnClassNumber #1'' @ [NL], tok @ [NL]]"

section \<open>What a table needs to come back from its text\<close>












section \<open>Lemmas on lists, the registry and the structural operations\<close>

lemma list_index_None: "list_index xs x = None \<longleftrightarrow> x \<notin> set xs"
  by (induction xs) auto

lemma list_index_Some: "list_index xs x = Some i \<Longrightarrow> i < length xs \<and> xs ! i = x"
  by (induction xs arbitrary: i) (auto split: if_splits)

lemma cast_all_length: "cast_all E dt vs = Inr ws \<Longrightarrow> length ws = length vs"
  by (induction vs arbitrary: ws) (auto split: sum.splits)

lemma cast_all_chars: "cast_all E TStr (map (\<lambda>c. VStr [c]) s) = Inr (map (\<lambda>c. VStr [c]) s)"
  by (induction s) (auto simp: cast_def py_str_def)

lemma set_update_subset: "set (AList.update k v al) \<subseteq> insert (k, v) (set al)"
  by (induction al) auto

lemma update_keys_set: "set (map fst (AList.update k v al)) = insert k (set (map fst al))"
  using dom_update [of k v al] by simp

lemma map_of_mapped:
  "map_of (map (\<lambda>(k, col). (k, g col)) al) k = map_option g (map_of al k)"
  by (induction al) auto

lemma pop_at_distinct:
  assumes "distinct xs" "i < length xs"
  shows "distinct (pop_at i xs) \<and> set (pop_at i xs) = set xs - {xs ! i}"
proof -
  have xs: "xs = take i xs @ xs ! i # drop (Suc i) xs"
    using assms(2) by (simp add: id_take_nth_drop)
  have d: "distinct (take i xs @ xs ! i # drop (Suc i) xs)"
    using assms(1) xs by simp
  have "set xs = set (take i xs) \<union> {xs ! i} \<union> set (drop (Suc i) xs)"
    by (subst xs) auto
  with d show ?thesis
    by (auto simp: pop_at_def)
qed

lemma length_pop_at: "i < length xs \<Longrightarrow> length (pop_at i xs) = length xs - 1"
  by (simp add: pop_at_def)

lemma get_dtype_img: "get_dtype ''_rlnImageName'' = Some TStr"
  by (simp add: get_dtype_def relion_cols_def relion_dtypes_def)

lemma get_dtype_cls: "get_dtype ''_rlnClassNumber'' = Some TInt"
  by (simp add: get_dtype_def relion_cols_def relion_dtypes_def)

lemma get_dtype_valid: "get_dtype key = Some d \<Longrightarrow> is_valid key"
  by (auto simp: get_dtype_def is_valid_def split: option.splits)

lemma star_inv_init: "star_inv Star_init"
  by (simp add: star_inv_def Star_init_def)

subsection \<open>Each structural operation keeps the invariant\<close>

lemma add_column_inv:
  assumes "star_inv t" "add_column E t key val np = Inr t'"
  shows "star_inv t'"
proof -
  obtain row dt where row: "length row = rows t"
    and t': "t' = (case list_index (cols t) key of
                None \<Rightarrow> t\<lparr>data := AList.update key row (data t), cols := cols t @ [key], dtypes := dtypes t @ [dt]\<rparr>
              | Some idx \<Rightarrow> t\<lparr>data := AList.update key row (data t), cols := (cols t)[idx := key], dtypes := (dtypes t)[idx := dt]\<rparr>)"
    using assms(2)
    by (auto simp: add_column_def Let_def split: if_splits option.splits sum.splits
        dest!: cast_all_length)
  have ents: "list_all (\<lambda>(k, col). length col = rows t) (AList.update key row (data t))"
    using assms(1) row set_update_subset [of key row "data t"]
    by (auto simp: star_inv_def list_all_iff)
  show ?thesis
  proof (cases "list_index (cols t) key")
    case None
    then have "key \<notin> set (cols t)" by (simp add: list_index_None)
    then show ?thesis
      using assms(1) None t' ents
      by (simp add: star_inv_def distinct_update update_keys_set del: set_map)
  next
    case (Some idx)
    then have "idx < length (cols t)" "cols t ! idx = key"
      using list_index_Some by fastforce+
    then have "(cols t)[idx := key] = cols t" "key \<in> set (cols t)"
      by (auto simp: list_update_same_conv)
    then show ?thesis
      using assms(1) Some t' ents
      by (auto simp: star_inv_def distinct_update update_keys_set simp del: set_map)
  qed
qed

lemma del_column_inv:
  assumes "star_inv t" "del_column t key = Inr t'"
  shows "star_inv t'"
proof (cases "list_index (cols t) key")
  case None
  then show ?thesis using assms by (simp add: del_column_def)
next
  case (Some idx)
  then have idx: "idx < length (cols t)" "cols t ! idx = key"
    using list_index_Some by fastforce+
  then have t': "t' = t\<lparr>cols := pop_at idx (cols t), dtypes := pop_at idx (dtypes t),
                         data := AList.delete key (data t)\<rparr>"
    using assms Some by (auto simp: del_column_def Let_def star_inv_def split: option.splits if_splits)
  have c: "distinct (pop_at idx (cols t))" "set (pop_at idx (cols t)) = set (cols t) - {key}"
    using pop_at_distinct [of "cols t" idx] assms(1) idx by (auto simp: star_inv_def)
  have k: "set (map fst (AList.delete key (data t))) = set (cols t) - {key}"
    using assms(1) by (simp add: star_inv_def delete_keys del: set_map)
  have e: "list_all (\<lambda>(k, col). length col = rows t) (AList.delete key (data t))"
    using assms(1) by (auto simp: star_inv_def list_all_iff AList.delete_eq)
  show ?thesis
    using assms(1) idx c k e
    by (simp add: t' star_inv_def distinct_delete length_pop_at del: set_map)
qed

text \<open>What a successful pass of the \<^verbatim>\<open>add_row\<close> loop leaves alone, and what it extends.\<close>

lemma add_row_loop_frame:
  "add_row_loop E t kvs = Inr t' \<Longrightarrow>
     cols t' = cols t \<and> rows t' = rows t \<and> dtypes t' = dtypes t \<and>
     map fst (data t') = map fst (data t) \<and> set (map fst kvs) \<subseteq> set (cols t)"
proof (induction kvs arbitrary: t)
  case Nil
  then show ?case by simp
next
  case (Cons kv kvs)
  obtain key v where kv: "kv = (key, v)" by (cases kv)
  from Cons.prems kv obtain col w where
    c: "key \<in> set (cols t)" "map_of (data t) key = Some col"
    and r: "add_row_loop E (t\<lparr>data := AList.update key (col @ [w]) (data t)\<rparr>) kvs = Inr t'"
    by (auto simp: is_column_def split: if_splits sum.splits option.splits)
  have "key \<in> set (map fst (data t))"
    using c(2) by (metis map_of_eq_None_iff option.distinct(1) set_map)
  then have "map fst (AList.update key (col @ [w]) (data t)) = map fst (data t)"
    by (simp add: update_keys del: set_map)
  with Cons.IH [OF r] c kv show ?case by simp
qed

lemma add_row_loop_lengths:
  "add_row_loop E t kvs = Inr t' \<Longrightarrow> distinct (map fst kvs) \<Longrightarrow> map_of (data t') k = Some col' \<Longrightarrow>
     \<exists>col. map_of (data t) k = Some col \<and>
           length col' = length col + (if k \<in> set (map fst kvs) then 1 else 0)"
proof (induction kvs arbitrary: t)
  case Nil
  then show ?case by simp
next
  case (Cons kv kvs)
  obtain key v where kv: "kv = (key, v)" by (cases kv)
  from Cons.prems(1) kv obtain col w where
    c: "map_of (data t) key = Some col"
    and r: "add_row_loop E (t\<lparr>data := AList.update key (col @ [w]) (data t)\<rparr>) kvs = Inr t'"
    by (auto simp: is_column_def split: if_splits sum.splits option.splits)
  from Cons.prems(2) kv have d: "distinct (map fst kvs)" "key \<notin> set (map fst kvs)" by auto
  from Cons.IH [OF r d(1) Cons.prems(3)] obtain col1 where
    c1: "map_of (AList.update key (col @ [w]) (data t)) k = Some col1"
    and l: "length col' = length col1 + (if k \<in> set (map fst kvs) then 1 else 0)"
    by auto
  show ?case
  proof (cases "k = key")
    case True
    with c1 have "col1 = col @ [w]" by (simp add: update_conv')
    with l c d True kv show ?thesis by simp
  next
    case False
    with c1 have "map_of (data t) k = Some col1" by (simp add: update_conv')
    with l False kv show ?thesis by auto
  qed
qed

lemma add_row_inv:
  assumes "star_inv t" "add_row E t kwargs = Inr t'"
  shows "star_inv t'"
proof -
  define kvs where "kvs = DAList.impl_of kwargs"
  have dk: "distinct (map fst kvs)"
    using impl_of_distinct [of kwargs] by (simp add: kvs_def)
  from assms(2) obtain t1 where
    len: "length kvs = length (cols t)" and
    loop: "add_row_loop E t kvs = Inr t1" and
    t': "t' = t1\<lparr>rows := rows t1 + 1\<rparr>"
    by (auto simp: add_row_def Let_def kvs_def get_ncols_def split: if_splits sum.splits)
  note fr = add_row_loop_frame [OF loop]
  have "card (set (map fst kvs)) = card (set (cols t))"
    using dk assms(1) len by (simp add: star_inv_def distinct_card del: set_map)
  with fr have keys: "set (map fst kvs) = set (cols t)"
    by (metis List.finite_set card_subset_eq)
  have ents: "length col' = rows t + 1" if "(k, col') \<in> set (data t1)" for k col'
  proof -
    have d1: "distinct (map fst (data t1))" using fr assms(1) by (simp add: star_inv_def)
    with that have m: "map_of (data t1) k = Some col'" by simp
    from add_row_loop_lengths [OF loop dk m] obtain col where
      c: "map_of (data t) k = Some col"
      and l: "length col' = length col + (if k \<in> set (map fst kvs) then 1 else 0)" by blast
    from c have mem: "(k, col) \<in> set (data t)" by (rule map_of_SomeD)
    then have "k \<in> set (map fst (data t))" by force
    then have "k \<in> set (map fst kvs)" using keys assms(1) by (simp add: star_inv_def del: set_map)
    moreover have "length col = rows t"
      using mem assms(1) by (auto simp: star_inv_def list_all_iff)
    ultimately show ?thesis using l by simp
  qed
  show ?thesis
    using assms(1) fr ents by (auto simp: t' star_inv_def list_all_iff simp del: set_map)
qed

text \<open>\<^verbatim>\<open>del_rows\<close> on a table whose columns are all long enough.\<close>

lemma append_row_ok:
  assumes "distinct (map fst hold)" "\<forall>(k, col) \<in> set hold. i < length col"
  shows "set hs \<subseteq> set hold \<Longrightarrow>
         append_row hold i (map (\<lambda>(k, col). (k, f col)) hs)
           = Inr (map (\<lambda>(k, col). (k, f col @ [col ! i])) hs)"
proof (induction hs)
  case Nil
  then show ?case by simp
next
  case (Cons h hs)
  obtain k col where h: "h = (k, col)" by (cases h)
  with Cons.prems have "(k, col) \<in> set hold" by simp
  then have "map_of hold k = Some col" "i < length col"
    using assms by auto
  with Cons h show ?case by simp
qed

lemma del_rows_loop_ok:
  assumes "distinct (map fst hold)"
  shows "\<forall>(k, col) \<in> set hold. \<forall>i \<in> set js. i < length col \<Longrightarrow>
         data t = map (\<lambda>(k, col). (k, map ((!) col) dn)) hold \<Longrightarrow>
         del_rows_loop hold lut js t =
           Inr (t\<lparr>data := map (\<lambda>(k, col). (k, map ((!) col) (dn @ filter (\<lambda>i. \<not> lut ! i) js))) hold,
                  rows := rows t + length (filter (\<lambda>i. \<not> lut ! i) js)\<rparr>)"
proof (induction js arbitrary: t dn)
  case Nil
  then show ?case by simp
next
  case (Cons j js)
  have rest: "\<forall>(k, col) \<in> set hold. \<forall>i \<in> set js. i < length col"
    using Cons.prems(1) by auto
  show ?case
  proof (cases "lut ! j")
    case True
    then show ?thesis
      using Cons.IH [OF rest Cons.prems(2)] by simp
  next
    case False
    have j: "\<forall>(k, col) \<in> set hold. j < length col"
      using Cons.prems(1) by auto
    have a: "append_row hold j (data t) = Inr (map (\<lambda>(k, col). (k, map ((!) col) dn @ [col ! j])) hold)"
      unfolding Cons.prems(2)
      by (rule append_row_ok [OF assms j]) simp
    have d: "data (t\<lparr>data := map (\<lambda>(k, col). (k, map ((!) col) dn @ [col ! j])) hold, rows := rows t + 1\<rparr>)
               = map (\<lambda>(k, col). (k, map ((!) col) (dn @ [j]))) hold"
      by simp
    show ?thesis
      using False a Cons.IH [OF rest d] by simp
  qed
qed

lemma del_rows_ok:
  assumes "star_inv t" "ids \<noteq> []" "mark_ids (rows t) ids = Inr lut"
  defines "ks \<equiv> filter (\<lambda>i. \<not> lut ! i) [0..<rows t]"
  shows "del_rows t ids =
           Inr (t\<lparr>rows := length ks, data := map (\<lambda>(k, col). (k, map ((!) col) ks)) (data t)\<rparr>)"
proof -
  let ?t0 = "t\<lparr>rows := 0, data := map (\<lambda>(key, col). (key, [])) (data t)\<rparr>"
  have d: "distinct (map fst (data t))" using assms(1) by (simp add: star_inv_def)
  have l: "\<forall>(k, col) \<in> set (data t). \<forall>i \<in> set [0..<rows t]. i < length col"
    using assms(1) by (auto simp: star_inv_def list_all_iff)
  have e: "data ?t0 = map (\<lambda>(k, col). (k, map ((!) col) [])) (data t)" by simp
  show ?thesis
    using assms(2,3) del_rows_loop_ok [OF d l e, of lut]
    by (simp add: del_rows_def Let_def ks_def)
qed

lemma del_rows_inv:
  assumes "star_inv t" "del_rows t ids = Inr t'"
  shows "star_inv t'"
proof (cases "ids = []")
  case True
  then show ?thesis using assms by (simp add: del_rows_def)
next
  case False
  from assms(2) False obtain lut where m: "mark_ids (rows t) ids = Inr lut"
    by (auto simp: del_rows_def Let_def split: sum.splits)
  let ?ks = "filter (\<lambda>i. \<not> lut ! i) [0..<rows t]"
  have t': "t' = t\<lparr>rows := length ?ks, data := map (\<lambda>(k, col). (k, map ((!) col) ?ks)) (data t)\<rparr>"
    using assms(2) del_rows_ok [OF assms(1) False m] by simp
  have k: "map fst (data t') = map fst (data t)"
    by (auto simp: t')
  have e: "list_all (\<lambda>(k, col). length col = rows t') (data t')"
    by (auto simp: t' list_all_iff)
  show ?thesis
    using assms(1) e unfolding star_inv_def k by (simp add: t')
qed

lemma apply_op_inv: "star_inv t \<Longrightarrow> apply_op E t x = Inr t' \<Longrightarrow> star_inv t'"
  by (cases x) (auto intro: add_row_inv del_rows_inv add_column_inv del_column_inv)

lemma run_ops_inv: "star_inv t \<Longrightarrow> run_ops E t xs = Some t' \<Longrightarrow> star_inv t'"
proof (induction xs arbitrary: t)
  case Nil
  then show ?case by simp
next
  case (Cons x xs)
  then show ?case
    by (auto split: sum.splits dest: apply_op_inv)
qed

subsection \<open>The marks of del\_rows\<close>

lemma norm_index_iff:
  "norm_index n idx = Some j \<longleftrightarrow> j < n \<and> (idx = int j \<or> idx = int j - int n)"
  by (auto simp: norm_index_def)

lemma np_index_small:
  "i < 2 ^ 63 \<or> 2 ^ 64 \<le> i \<Longrightarrow>
     np_index n i = (case norm_index n i of None \<Rightarrow> Inl IndexError | Some j \<Rightarrow> Inr j)"
  by (auto simp: np_index_def)

lemma mark_loop_ok:
  "\<forall>idx \<in> set ids. idx < 2 ^ 63 \<or> 2 ^ 64 \<le> idx \<Longrightarrow> length lut = n \<Longrightarrow>
     \<exists>lut'. mark_loop n lut ids = Inr lut' \<and> length lut' = n \<and>
            (\<forall>j < n. lut' ! j = (lut ! j \<or> (\<exists>idx \<in> set ids. norm_index n idx = Some j)))"
proof (induction ids arbitrary: lut)
  case Nil
  then show ?case by simp
next
  case (Cons idx ids)
  have i: "np_index n idx = (case norm_index n idx of None \<Rightarrow> Inl IndexError | Some j \<Rightarrow> Inr j)"
    using Cons.prems(1) by (intro np_index_small) simp
  have rest: "\<forall>idx \<in> set ids. idx < 2 ^ 63 \<or> 2 ^ 64 \<le> idx" using Cons.prems(1) by simp
  show ?case
  proof (cases "norm_index n idx")
    case None
    from Cons.IH [OF rest Cons.prems(2)] None i show ?thesis by simp
  next
    case (Some j')
    then have j': "j' < n" by (simp add: norm_index_iff)
    have l: "length (lut[j' := True]) = n" using Cons.prems(2) by simp
    from Cons.IH [OF rest l] obtain lut' where
      m: "mark_loop n (lut[j' := True]) ids = Inr lut'" and ll: "length lut' = n"
      and v: "\<forall>j < n. lut' ! j = ((lut[j' := True]) ! j \<or> (\<exists>idx \<in> set ids. norm_index n idx = Some j))"
      by blast
    have "lut' ! j = (lut ! j \<or> (\<exists>x \<in> set (idx # ids). norm_index n x = Some j))"
      if "j < n" for j
      using v that Some j' Cons.prems(2) by (auto simp: nth_list_update)
    with m ll Some i show ?thesis by simp
  qed
qed

lemma mark_ids_ok:
  assumes "\<forall>idx \<in> set ids. idx < 2 ^ 63 \<or> 2 ^ 64 \<le> idx"
  shows "\<exists>lut. mark_ids n ids = Inr lut \<and>
           filter (\<lambda>i. \<not> lut ! i) [0..<n] = surviving n ids"
proof -
  from mark_loop_ok [OF assms, of "replicate n False" n] obtain lut where
    m: "mark_loop n (replicate n False) ids = Inr lut"
    and v: "\<forall>j < n. lut ! j = (replicate n False ! j \<or> (\<exists>idx \<in> set ids. norm_index n idx = Some j))"
    by auto
  have "filter (\<lambda>i. \<not> lut ! i) [0..<n] = surviving n ids"
    unfolding surviving_def
    by (rule filter_cong) (auto simp: v norm_index_iff)
  with m show ?thesis by (simp add: mark_ids_def)
qed

subsection \<open>The concrete tables are built by the operations themselves\<close>

lemma str_nat_digit: "n < 10 \<Longrightarrow> str_nat n = [digit_char n]"
  by (simp add: str_nat.simps)

lemma run_build_three_rows: "run_ops demo_env Star_init build_three_rows = Some three_rows"
  by (simp add: build_three_rows_def three_rows_def Star_init_def add_column_def add_row_def
      get_dtype_img get_dtype_cls get_dtype_valid arg_items_def scalar_of_def Alist_inverse
      get_ncols_def is_column_def get_column_type_def cast_def py_str_def py_int_def
      int_of_str_def take_sign_def lstrip_def py_isspace_def is_digit_def nat_of_digits_def
      digit_val_def int_of_float_def trunc_zero_def)

lemma star_inv_three_rows: "star_inv three_rows"
  by (simp add: star_inv_def three_rows_def Star_init_def)

lemma star_inv_two_cols: "star_inv two_cols"
  by (simp add: star_inv_def two_cols_def Star_init_def)

section \<open>Claims on the structural operations\<close>

lemma run_ops_append:
  "run_ops E t (xs @ ys) = (case run_ops E t xs of None \<Rightarrow> None | Some t1 \<Rightarrow> run_ops E t1 ys)"
  by (induction xs arbitrary: t) (auto split: sum.splits)

lemma add_row_count_mismatch:
  "length (DAList.impl_of kwargs) \<noteq> length (cols t) \<Longrightarrow>
     add_row E t kwargs =
       Inl (PySegInputError ''add_row (Star)''
              (count_msg (length (DAList.impl_of kwargs)) (length (cols t))), t)"
  by (simp add: add_row_def get_ncols_def)

lemma add_row_loop_fails:
  "\<not> set (map fst kvs) \<subseteq> set (cols t) \<Longrightarrow>
     \<exists>e t'. add_row_loop E t kvs = Inl (e, t') \<and> rows t' = rows t \<and> cols t' = cols t"
proof (induction kvs arbitrary: t)
  case Nil
  then show ?case by simp
next
  case (Cons kv kvs)
  obtain key v where kv: "kv = (key, v)" by (cases kv)
  show ?case
  proof (cases "add_row_loop E t (kv # kvs)")
    case (Inr t')
    from add_row_loop_frame [OF Inr] Cons.prems show ?thesis by simp
  next
    case (Inl r)
    obtain e t' where r: "r = (e, t')" by (cases r)
    have "rows t' = rows t \<and> cols t' = cols t"
    proof (cases "key \<in> set (cols t)")
      case False
      with Inl r kv show ?thesis by (simp add: is_column_def)
    next
      case True
      show ?thesis
      proof (cases "\<exists>dt col w. get_column_type t key = Inr (Some dt) \<and> map_of (data t) key = Some col
                       \<and> cast E dt v = Inr w")
        case False
        with Inl r kv True show ?thesis
          by (auto simp: is_column_def split: sum.splits option.splits)
      next
        case ex: True
        then obtain dt col w where s: "get_column_type t key = Inr (Some dt)"
          "map_of (data t) key = Some col" "cast E dt v = Inr w" by blast
        let ?t1 = "t\<lparr>data := AList.update key (col @ [w]) (data t)\<rparr>"
        have l: "add_row_loop E ?t1 kvs = Inl (e, t')"
          using Inl r kv True s by (simp add: is_column_def)
        have "\<not> set (map fst kvs) \<subseteq> set (cols ?t1)"
          using Cons.prems kv True by simp
        from Cons.IH [OF this] l show ?thesis by auto
      qed
    qed
    with Inl r show ?thesis by simp
  qed
qed

lemma add_row_unknown_key_fails:
  assumes "\<not> set (map fst (DAList.impl_of kwargs)) \<subseteq> set (cols t)"
  shows "\<exists>e t'. add_row E t kwargs = Inl (e, t') \<and> rows t' = rows t \<and> cols t' = cols t"
proof (cases "length (DAList.impl_of kwargs) = length (cols t)")
  case True
  with add_row_loop_fails [OF assms, of E] show ?thesis
    by (auto simp: add_row_def get_ncols_def)
next
  case False
  then show ?thesis by (simp add: add_row_count_mismatch)
qed

text \<open>
  Claim C1.  \<^verbatim>\<open>add_row\<close> with a wrong number of keys, or with a key that is no
  column, fails and leaves the table unchanged.  The count is checked before anything
  is written (\<open>add_row_count_mismatch\<close>), and a call with an unknown key always
  fails with the row count unchanged (\<open>add_row_unknown_key_fails\<close>).  But the keys
  are checked one by one inside the loop that appends: on the table with the columns
  \<^verbatim>\<open>_rlnImageName\<close> and \<^verbatim>\<open>_rlnClassNumber\<close> and no rows, the call
  \<^verbatim>\<open>add_row(_rlnImageName='p.mrc', bogus=1)\<close> raises for \<^verbatim>\<open>bogus\<close> after
  \<^verbatim>\<open>'p.mrc'\<close> has been appended to the first column, which is left one longer than
  the row count.
\<close>

theorem add_row_unknown_key_partial_commit:
  "add_row demo_env two_cols (Alist [(''_rlnImageName'', VStr ''p.mrc''), (''bogus'', VInt 1)])
     = Inl (PySegInputError ''add_row (Star)'' ''Column name bogus not present.'',
            two_cols\<lparr>data := [(''_rlnImageName'', [VStr ''p.mrc'']), (''_rlnClassNumber'', [])]\<rparr>)"
  by (simp add: add_row_def Alist_inverse two_cols_def Star_init_def get_ncols_def is_column_def
      get_column_type_def cast_def py_str_def not_present_msg_def)

text \<open>
  Claim C2.  From a table that satisfies the invariants of the data model, after any
  sequence of \<^verbatim>\<open>add_row\<close>, \<^verbatim>\<open>del_rows\<close>, \<^verbatim>\<open>add_column\<close> and \<^verbatim>\<open>del_column\<close> calls
  that all succeed, every column has a data sequence, and its length is the row count.
\<close>

theorem column_lengths_invariant:
  assumes "star_inv t" and "run_ops E t ops = Some t'"
  shows "\<forall>k \<in> set (cols t'). \<exists>col. map_of (data t') k = Some col \<and> length col = rows t'"
proof
  fix k
  assume k: "k \<in> set (cols t')"
  have inv: "star_inv t'"
    using assms by (rule run_ops_inv)
  then have "k \<in> set (map fst (data t'))"
    using k by (simp add: star_inv_def del: set_map)
  then obtain col where c: "(k, col) \<in> set (data t')" by auto
  then have "map_of (data t') k = Some col"
    using inv by (simp add: star_inv_def)
  moreover have "length col = rows t'"
    using inv c by (auto simp: star_inv_def list_all_iff)
  ultimately show "\<exists>col. map_of (data t') k = Some col \<and> length col = rows t'"
    by blast
qed

lemma del_rows_three_rows:
  "del_rows three_rows [- 1, 7] =
     Inr (three_rows\<lparr>rows := 2, data := [(''_rlnImageName'', [VStr ''a.mrc'', VStr ''b.mrc'']),
                                          (''_rlnClassNumber'', [VInt 1, VInt 1])]\<rparr>)"
  by (simp add: del_rows_def three_rows_def Star_init_def mark_ids_def np_index_def
      norm_index_def numeral_3_eq_3)

theorem column_lengths_invariant_witness:
  "star_inv Star_init \<and>
   run_ops demo_env Star_init (build_three_rows @ [DelRows [- 1, 7], DelColumn ''_rlnImageName''])
     = Some (three_rows\<lparr>rows := 2, cols := [''_rlnClassNumber''], dtypes := [TInt],
                          data := [(''_rlnClassNumber'', [VInt 1, VInt 1])]\<rparr>) \<and>
   map_of [(''_rlnClassNumber'', [VInt 1, VInt 1])] ''_rlnClassNumber'' = Some [VInt 1, VInt 1] \<and>
   length [VInt 1, VInt 1] = (2::nat)"
proof -
  let ?T = "three_rows\<lparr>rows := 2, cols := [''_rlnClassNumber''], dtypes := [TInt],
                          data := [(''_rlnClassNumber'', [VInt 1, VInt 1])]\<rparr>"
  have r: "run_ops demo_env Star_init
             (build_three_rows @ [DelRows [- 1, 7], DelColumn ''_rlnImageName'']) = Some ?T"
    by (simp add: run_ops_append run_build_three_rows del_rows_three_rows del_column_def pop_at_def)
       (simp add: three_rows_def Star_init_def pop_at_def)
  from column_lengths_invariant [OF star_inv_init r] star_inv_init r
  show ?thesis by simp
qed

text \<open>
  Claim C9.  For a column name the registry types as text, \<^verbatim>\<open>add_column\<close> with one
  string as the value takes the string as a sequence: a string whose length is not
  the row count is refused with the length-mismatch error and the table is left as it
  was; a string as long as the row count gives each row one of its characters.
\<close>

theorem add_column_string_is_sequence:
  assumes "get_dtype key = Some TStr" and "length (dtypes t) = length (cols t)"
  shows "(length s \<noteq> rows t \<longrightarrow>
            add_column E t key (Scalar (VStr s)) no_parse =
              Inl (PySegInputError ''add_column (Star)'' (length_msg (length s) (rows t)), t)) \<and>
         (length s = rows t \<longrightarrow>
            (\<exists>t'. add_column E t key (Scalar (VStr s)) no_parse = Inr t' \<and>
                  map_of (data t') key = Some (map (\<lambda>c. VStr [c]) s) \<and> rows t' = rows t))"
proof -
  have v: "is_valid key" using assms(1) by (rule get_dtype_valid)
  have i: "list_index (cols t) key = Some idx \<Longrightarrow> idx < length (dtypes t)" for idx
    using list_index_Some [of "cols t" key idx] assms(2) by simp
  show ?thesis
  proof (cases "list_index (cols t) key")
    case None
    then show ?thesis
      using v assms(1)
      by (simp add: add_column_def arg_items_def cast_all_chars update_conv')
  next
    case (Some idx)
    then show ?thesis
      using v assms(1) i [OF Some]
      by (simp add: add_column_def arg_items_def cast_all_chars update_conv')
  qed
qed

theorem add_column_string_is_sequence_witness:
  "get_dtype ''_rlnImageName'' = Some TStr \<and>
   length (dtypes three_rows) = length (cols three_rows) \<and>
   add_column demo_env three_rows ''_rlnImageName'' (Scalar (VStr ''xy'')) False =
     Inl (PySegInputError ''add_column (Star)'' (length_msg 2 3), three_rows) \<and>
   (\<exists>t'. add_column demo_env three_rows ''_rlnImageName'' (Scalar (VStr ''xyz'')) False = Inr t' \<and>
         map_of (data t') ''_rlnImageName'' = Some [VStr ''x'', VStr ''y'', VStr ''z''] \<and> rows t' = 3)"
proof -
  have l: "length (dtypes three_rows) = length (cols three_rows)" "rows three_rows = 3"
    by (simp_all add: three_rows_def Star_init_def)
  from add_column_string_is_sequence [OF get_dtype_img l(1), of "''xy''" demo_env False]
       add_column_string_is_sequence [OF get_dtype_img l(1), of "''xyz''" demo_env False]
  show ?thesis
    by (simp add: l get_dtype_img numeral_2_eq_2)
qed

text \<open>
  Claim C10.  \<^verbatim>\<open>del_rows\<close> means to ignore an index that addresses no row: the
  assignment \<^verbatim>\<open>ids_lut[idx] = True\<close> stands in a \<^verbatim>\<open>try\<close> whose handler passes on
  IndexError.  For an index from \<open>2^63\<close> up to \<open>2^64 - 1\<close> the assignment raises
  OverflowError instead, which the handler does not catch, and by then the row count
  is zero and every column is empty.  On the table of three rows, \<^verbatim>\<open>del_rows([-1, 2**63])\<close>
  does not delete the last row and ignore the other index: it raises and leaves a
  table without rows.
\<close>

theorem del_rows_huge_index_overflow:
  "del_rows three_rows [- 1, 2 ^ 63] =
     Inl (OverflowError,
          three_rows\<lparr>rows := 0, data := [(''_rlnImageName'', []), (''_rlnClassNumber'', [])]\<rparr>)"
  by (simp add: del_rows_def three_rows_def Star_init_def mark_ids_def np_index_def
      norm_index_def numeral_3_eq_3)

text \<open>
  Below \<open>2^63\<close> (and from \<open>2^64\<close> on) the method does what it means to.  On a table of
  \<open>n\<close> rows that satisfies the invariants, \<^verbatim>\<open>del_rows\<close> on a list of such indices that holds
  an index \<open>i\<close> with \<open>-n \<le> i < 0\<close> removes the row \<open>n + i\<close>.  The rows that remain are
  exactly those no index addresses, a row \<open>j\<close> being addressed by \<open>j\<close> and by \<open>j - n\<close>; an
  index at or beyond \<open>n\<close> or below \<open>-n\<close> addresses no row.
\<close>

theorem del_rows_negative_index:
  assumes "star_inv t" and "i \<in> set ids" and "- int (rows t) \<le> i" and "i < 0"
    and "\<forall>idx \<in> set ids. idx < 2 ^ 63 \<or> 2 ^ 64 \<le> idx"
  shows "\<exists>t'. del_rows t ids = Inr t' \<and>
              rows t' = length (surviving (rows t) ids) \<and> cols t' = cols t \<and>
              (\<forall>k col. map_of (data t) k = Some col \<longrightarrow>
                 map_of (data t') k = Some (map ((!) col) (surviving (rows t) ids))) \<and>
              nat (int (rows t) + i) \<notin> set (surviving (rows t) ids)"
proof -
  have ne: "ids \<noteq> []" using assms(2) by auto
  have gone: "nat (int (rows t) + i) \<notin> set (surviving (rows t) ids)"
  proof
    assume "nat (int (rows t) + i) \<in> set (surviving (rows t) ids)"
    then have "int (nat (int (rows t) + i)) - int (rows t) \<notin> set ids"
      by (simp add: surviving_def)
    moreover have "int (nat (int (rows t) + i)) - int (rows t) = i"
      using assms(3) by simp
    ultimately show False using assms(2) by simp
  qed
  from mark_ids_ok [OF assms(5)] obtain lut where
    m: "mark_ids (rows t) ids = Inr lut"
    and f: "filter (\<lambda>i. \<not> lut ! i) [0..<rows t] = surviving (rows t) ids"
    by blast
  show ?thesis
    using del_rows_ok [OF assms(1) ne m] gone
    by (simp add: f map_of_mapped)
qed

theorem del_rows_negative_index_witness:
  "star_inv three_rows \<and> (- 1) \<in> set [- 1, 7] \<and> - int (rows three_rows) \<le> - 1 \<and> (- 1 :: int) < 0 \<and>
   list_all (\<lambda>idx. idx < 2 ^ 63) [- 1, 7 :: int] \<and>
   del_rows three_rows [- 1, 7] =
     Inr (three_rows\<lparr>rows := 2, data := [(''_rlnImageName'', [VStr ''a.mrc'', VStr ''b.mrc'']),
                                          (''_rlnClassNumber'', [VInt 1, VInt 1])]\<rparr>) \<and>
   surviving 3 [- 1, 7] = [0, 1] \<and> nat (int (rows three_rows) + (- 1)) = 2"
proof -
  have h: "(- 1) \<in> set [- 1, 7 :: int]" "- int (rows three_rows) \<le> - 1" "(- 1 :: int) < 0"
    "\<forall>idx \<in> set [- 1, 7 :: int]. idx < 2 ^ 63 \<or> 2 ^ 64 \<le> idx"
    by (simp_all add: three_rows_def Star_init_def)
  have s: "surviving 3 [- 1, 7] = [0, 1]"
    by (simp add: surviving_def numeral_3_eq_3)
  from del_rows_negative_index [OF star_inv_three_rows h] h s
  show ?thesis
    by (simp add: star_inv_three_rows del_rows_three_rows) (simp add: three_rows_def Star_init_def)
qed


section \<open>Lemmas on split\_class\<close>

lemma has_type_cast: "has_type d v \<Longrightarrow> cast E d v = Inr v"
  by (cases v; cases d) (auto simp: has_type_def cast_def py_str_def py_int_def py_float_def)

lemma update_fresh: "k \<notin> fst ` set al \<Longrightarrow> AList.update k v al = al @ [(k, v)]"
  by (induction al) auto


lemma new_star_cols_ok:
  "list_all is_valid keys \<Longrightarrow> distinct (pre @ keys) \<Longrightarrow>
   new_star_cols E (Star_init\<lparr>data := map (\<lambda>k. (k, [])) pre, dtypes := map reg_dtype pre, cols := pre\<rparr>) keys
     = Inr (Star_init\<lparr>data := map (\<lambda>k. (k, [])) (pre @ keys), dtypes := map reg_dtype (pre @ keys),
                      cols := pre @ keys\<rparr>)"
proof (induction keys arbitrary: pre)
  case Nil
  then show ?case by simp
next
  case (Cons key keys)
  have f: "key \<notin> set pre" using Cons.prems(2) by auto
  then have i: "list_index pre key = None" by (simp add: list_index_None)
  have u: "AList.update key [] (map (\<lambda>k. (k, [])) pre) = map (\<lambda>k. (k, [])) (pre @ [key])"
    using f by (subst update_fresh) (auto simp: image_iff)
  have a: "add_column E (Star_init\<lparr>data := map (\<lambda>k. (k, [])) pre, dtypes := map reg_dtype pre, cols := pre\<rparr>)
             key (Scalar (VInt (- 1))) False
           = Inr (Star_init\<lparr>data := map (\<lambda>k. (k, [])) (pre @ [key]), dtypes := map reg_dtype (pre @ [key]),
                      cols := pre @ [key]\<rparr>)"
    using Cons.prems(1) i u
    by (simp add: add_column_def arg_items_def scalar_of_def Star_init_def reg_dtype_def)
  have d: "distinct ((pre @ [key]) @ keys)" using Cons.prems(2) by simp
  have v: "list_all is_valid keys" using Cons.prems(1) by simp
  show ?case
    using Cons.IH [OF v d] a by simp
qed


lemma get_element_nat:
  "map_of (data t) k = Some col \<Longrightarrow> row < length col \<Longrightarrow> get_element t k (int row) = Inr (col ! row)"
  by (simp add: get_element_def py_get_def norm_index_def)

lemma row_kwargs_ok:
  "distinct (map fst (DAList.impl_of kw0) @ keys) \<Longrightarrow>
   \<forall>k \<in> set keys. \<exists>col. map_of (data t) k = Some col \<and> row < length col \<Longrightarrow>
   \<exists>kw. row_kwargs t keys (int row) kw0 = Inr kw \<and>
        DAList.impl_of kw = DAList.impl_of kw0 @ map (\<lambda>k. (k, column_of t k ! row)) keys"
proof (induction keys arbitrary: kw0)
  case Nil
  then show ?case by simp
next
  case (Cons key keys)
  from Cons.prems(2) obtain col where c: "map_of (data t) key = Some col" "row < length col"
    by auto
  let ?kw1 = "DAList.update key (col ! row) kw0"
  have fresh: "key \<notin> fst ` set (DAList.impl_of kw0)"
    using Cons.prems(1) by auto
  have i: "DAList.impl_of ?kw1 = DAList.impl_of kw0 @ [(key, col ! row)]"
    using fresh by (simp add: update.rep_eq update_fresh)
  have d: "distinct (map fst (DAList.impl_of ?kw1) @ keys)"
    using Cons.prems(1) by (simp add: i)
  have r: "\<forall>k \<in> set keys. \<exists>col. map_of (data t) k = Some col \<and> row < length col"
    using Cons.prems(2) by simp
  from Cons.IH [OF d r] obtain kw where
    "row_kwargs t keys (int row) ?kw1 = Inr kw"
    "DAList.impl_of kw = DAList.impl_of ?kw1 @ map (\<lambda>k. (k, column_of t k ! row)) keys"
    by blast
  then show ?case
    using c by (simp add: get_element_nat i column_of_def)
qed

lemma update_in_place:
  "distinct (map fst al) \<Longrightarrow> map_of al key = Some col \<Longrightarrow>
   AList.update key x al = map (\<lambda>(k, c). (k, if k = key then x else c)) al"
proof (induction al)
  case Nil
  then show ?case by simp
next
  case (Cons a al)
  obtain k c where a: "a = (k, c)" by (cases a)
  show ?case
  proof (cases "k = key")
    case True
    have "key \<notin> fst ` set al" using Cons.prems(1) a True by auto
    then have "map (\<lambda>(k, c). (k, if k = key then x else c)) al = al"
      by (induction al) auto
    with True a show ?thesis by simp
  next
    case False
    with Cons a show ?thesis by simp
  qed
qed

lemma add_row_loop_ok:
  "distinct ks \<Longrightarrow> distinct (map fst (data s)) \<Longrightarrow> set ks \<subseteq> fst ` set (data s) \<Longrightarrow>
   \<forall>k \<in> set ks. \<exists>idx. list_index (cols s) k = Some idx \<and> idx < length (dtypes s) \<and>
                       cast E (dtypes s ! idx) (vf k) = Inr (vf k) \<Longrightarrow>
   add_row_loop E s (map (\<lambda>k. (k, vf k)) ks)
     = Inr (s\<lparr>data := map (\<lambda>(k, col). (k, if k \<in> set ks then col @ [vf k] else col)) (data s)\<rparr>)"
proof (induction ks arbitrary: s)
  case Nil
  then show ?case by simp
next
  case (Cons key ks)
  from Cons.prems(4) obtain idx where
    idx: "list_index (cols s) key = Some idx" "idx < length (dtypes s)"
         "cast E (dtypes s ! idx) (vf key) = Inr (vf key)"
    by auto
  have col: "is_column s key"
    using idx(1) list_index_None [of "cols s" key] by (simp add: is_column_def)
  have "key \<in> fst ` set (data s)" using Cons.prems(3) by simp
  then obtain c where "(key, c) \<in> set (data s)" by force
  then have c: "map_of (data s) key = Some c"
    using Cons.prems(2) by simp
  let ?s1 = "s\<lparr>data := AList.update key (c @ [vf key]) (data s)\<rparr>"
  have u: "data ?s1 = map (\<lambda>(k, col). (k, if k = key then c @ [vf key] else col)) (data s)"
    using update_in_place [OF Cons.prems(2) c] by simp
  have step: "add_row_loop E s (map (\<lambda>k. (k, vf k)) (key # ks))
                = add_row_loop E ?s1 (map (\<lambda>k. (k, vf k)) ks)"
    using col idx c by (simp add: get_column_type_def)
  have p1: "distinct ks" "key \<notin> set ks" using Cons.prems(1) by auto
  have p2: "distinct (map fst (data ?s1))"
    using Cons.prems(2) by (simp add: distinct_update)
  have p3: "set ks \<subseteq> fst ` set (data ?s1)"
    using Cons.prems(3) by (auto simp: dom_update)
  have p4: "\<forall>k \<in> set ks. \<exists>idx. list_index (cols ?s1) k = Some idx \<and> idx < length (dtypes ?s1) \<and>
                       cast E (dtypes ?s1 ! idx) (vf k) = Inr (vf k)"
    using Cons.prems(4) by simp
  have m: "map (\<lambda>(k, col). (k, if k \<in> set ks then col @ [vf k] else col)) (data ?s1)
             = map (\<lambda>(k, col). (k, if k \<in> set (key # ks) then col @ [vf k] else col)) (data s)"
    unfolding u using p1(2) c Cons.prems(2)
    by (auto simp: map_of_eq_Some_iff dest: eq_key_imp_eq_value)
  show ?case
    unfolding step Cons.IH [OF p1(1) p2 p3 p4] m by simp
qed


lemma list_index_mem: "k \<in> set xs \<Longrightarrow> \<exists>idx. list_index xs k = Some idx"
  using list_index_None [of xs k] by auto

lemma add_row_full:
  assumes "distinct keys" "cols s = keys" "data s = map (\<lambda>k. (k, cf k)) keys"
    "dtypes s = map reg_dtype keys"
    "DAList.impl_of kw = map (\<lambda>k. (k, vf k)) keys"
    "\<forall>k \<in> set keys. cast E (reg_dtype k) (vf k) = Inr (vf k)"
  shows "add_row E s kw = Inr (s\<lparr>data := map (\<lambda>k. (k, cf k @ [vf k])) keys, rows := rows s + 1\<rparr>)"
proof -
  have k: "map fst (data s) = keys" by (simp add: assms(3) comp_def)
  have p2: "distinct (map fst (data s))" using assms(1) k by simp
  have p3: "set keys \<subseteq> fst ` set (data s)" using k by (metis set_map subset_refl)
  have p4: "\<forall>k \<in> set keys. \<exists>idx. list_index (cols s) k = Some idx \<and> idx < length (dtypes s) \<and>
                       cast E (dtypes s ! idx) (vf k) = Inr (vf k)"
  proof
    fix k assume kin: "k \<in> set keys"
    then obtain idx where i: "list_index keys k = Some idx" using list_index_mem by fastforce
    then have "idx < length keys" "keys ! idx = k" using list_index_Some by fastforce+
    then show "\<exists>idx. list_index (cols s) k = Some idx \<and> idx < length (dtypes s) \<and>
                       cast E (dtypes s ! idx) (vf k) = Inr (vf k)"
      using i assms(2,4,6) kin by auto
  qed
  have m: "map (\<lambda>(k, col). (k, if k \<in> set keys then col @ [vf k] else col)) (data s)
             = map (\<lambda>k. (k, cf k @ [vf k])) keys"
    by (simp add: assms(3))
  show ?thesis
    using add_row_loop_ok [OF assms(1) p2 p3 p4]
    by (simp add: add_row_def assms(5) get_ncols_def assms(2) m)
qed

lemma copy_rows_ok:
  assumes "star_inv t" "registry_typed t"
  shows "\<forall>r \<in> set rws. r < rows t \<Longrightarrow>
         copy_rows E t (cols t) rws (sub_table t dn) = Inr (sub_table t (dn @ rws))"
proof (induction rws arbitrary: dn)
  case Nil
  then show ?case by simp
next
  case (Cons row rws)
  have d: "distinct (cols t)" using assms(1) by (simp add: star_inv_def)
  have ex: "\<exists>col. map_of (data t) k = Some col \<and> length col = rows t \<and>
                  list_all (has_type (reg_dtype k)) col" if "k \<in> set (cols t)" for k
  proof -
    have "k \<in> set (map fst (data t))" using that assms(1) by (simp add: star_inv_def del: set_map)
    then obtain col where c: "(k, col) \<in> set (data t)" by auto
    then have "map_of (data t) k = Some col" using assms(1) by (simp add: star_inv_def)
    moreover have "length col = rows t" using c assms(1) by (auto simp: star_inv_def list_all_iff)
    moreover have "list_all (has_type (reg_dtype k)) col"
      using c assms(2) by (auto simp: registry_typed_def list_all_iff)
    ultimately show ?thesis by blast
  qed
  have r: "row < rows t" using Cons.prems by simp
  have g: "\<forall>k \<in> set (cols t). \<exists>col. map_of (data t) k = Some col \<and> row < length col"
    using ex r by fastforce
  have d0: "distinct (map fst (DAList.impl_of (DAList.empty :: (string, pyval) alist)) @ cols t)"
    using d by (simp add: empty.rep_eq)
  from row_kwargs_ok [OF d0 g] obtain kw where
    kw: "row_kwargs t (cols t) (int row) DAList.empty = Inr kw"
        "DAList.impl_of kw = map (\<lambda>k. (k, column_of t k ! row)) (cols t)"
    by (auto simp: empty.rep_eq)
  have c: "\<forall>k \<in> set (cols t). cast E (reg_dtype k) (column_of t k ! row) = Inr (column_of t k ! row)"
  proof
    fix k assume "k \<in> set (cols t)"
    from ex [OF this] obtain col where
      "map_of (data t) k = Some col" "length col = rows t" "list_all (has_type (reg_dtype k)) col"
      by blast
    then show "cast E (reg_dtype k) (column_of t k ! row) = Inr (column_of t k ! row)"
      using r by (simp add: column_of_def list_all_length has_type_cast)
  qed
  have a: "add_row E (sub_table t dn) kw = Inr (sub_table t (dn @ [row]))"
    using assms(2)
    by (subst add_row_full [where keys = "cols t" and vf = "\<lambda>k. column_of t k ! row"
          and cf = "\<lambda>k. map ((!) (column_of t k)) dn", OF d _ _ _ kw(2) c])
       (simp_all add: sub_table_def registry_typed_def)
  have rest: "\<forall>r \<in> set rws. r < rows t" using Cons.prems by simp
  show ?case
    using kw(1) a Cons.IH [OF rest, of "dn @ [row]"] by simp
qed

lemma new_star_cols_init:
  assumes "list_all is_valid keys" "distinct keys"
  shows "new_star_cols E Star_init keys
           = Inr (Star_init\<lparr>data := map (\<lambda>k. (k, [])) keys, dtypes := map reg_dtype keys, cols := keys\<rparr>)"
  using new_star_cols_ok [of keys "[]" E] assms by (simp add: Star_init_def)

lemma split_loop_ok:
  assumes "star_inv t" "registry_typed t" "length classes = rows t"
  shows "split_loop E t classes (cols t) cs = Inr (map (\<lambda>c. sub_table t (class_rows classes c)) cs)"
proof (induction cs)
  case Nil
  then show ?case by simp
next
  case (Cons c cs)
  have v: "list_all is_valid (cols t)" "dtypes t = map reg_dtype (cols t)"
    using assms(2) by (simp_all add: registry_typed_def)
  have d: "distinct (cols t)" using assms(1) by (simp add: star_inv_def)
  have n: "new_star_cols E Star_init (cols t) = Inr (sub_table t [])"
    using new_star_cols_init [OF v(1) d] v(2) by (simp add: sub_table_def Star_init_def)
  have r: "\<forall>r \<in> set (class_rows classes c). r < rows t"
    using assms(3) by (simp add: class_rows_def)
  show ?case
    using n copy_rows_ok [OF assms(1,2) r, of E "[]"] Cons.IH by simp
qed

lemma as_ints_Some: "as_ints vs = Some js \<Longrightarrow> vs = map VInt js"
  by (induction vs arbitrary: js) (auto split: pyval.splits option.splits)

lemma star_inv_sub_table: "star_inv t \<Longrightarrow> star_inv (sub_table t rws)"
  by (simp add: star_inv_def sub_table_def comp_def list_all_iff)

lemma split_class_ok:
  assumes "has_column t ''_rlnClassNumber''" "star_inv t" "registry_typed t"
    "column_of t ''_rlnClassNumber'' = map VInt classes" "list_all in_int64 classes"
  shows "split_class E t = Inr (map (\<lambda>c. sub_table t (class_rows classes c)) (set_order E classes))"
proof -
  have "''_rlnClassNumber'' \<in> set (map fst (data t))"
    using assms(1,2) by (simp add: has_column_def star_inv_def del: set_map)
  then obtain col where c: "(''_rlnClassNumber'', col) \<in> set (data t)" by auto
  then have m: "map_of (data t) ''_rlnClassNumber'' = Some col"
    using assms(2) by (simp add: star_inv_def)
  then have col: "col = map VInt classes"
    using assms(4) by (simp add: column_of_def)
  have "length col = rows t"
    using c assms(2) by (auto simp: star_inv_def list_all_iff)
  then have l: "length classes = rows t" by (simp add: col)
  have a: "as_ints (map VInt classes) = Some classes"
    by (induction classes) auto
  show ?thesis
    using assms(1,5) m a split_loop_ok [OF assms(2,3) l, of E]
    by (simp add: split_class_def get_column_data_def is_column_def has_column_def col
        get_column_keys_def)
qed

section \<open>Claims on split\_class\<close>

text \<open>
  What \<^verbatim>\<open>split_class\<close> does on a table of registry columns.  It fails with the
  missing-column error when there is no class-id column.  When there is one, and the
  table satisfies the invariants, every column is a registry name holding cells of
  its registry type, and the class ids fit 64 bits, it returns one table per distinct
  class id; the table of a class has the columns and types of the original and exactly
  the rows of that class, in their order, and satisfies the invariants itself.
\<close>

theorem split_class_partition:
  "(\<not> has_column t ''_rlnClassNumber'' \<longrightarrow>
      split_class E t =
        Inl (PySegInputError ''split_class (Star)'' ''No _rlnClassNumber column found!'')) \<and>
   (has_column t ''_rlnClassNumber'' \<and> star_inv t \<and> registry_typed t \<and> set_order_ok E \<and>
    column_of t ''_rlnClassNumber'' = map VInt classes \<and> list_all in_int64 classes \<longrightarrow>
      (\<exists>cs. distinct cs \<and> set cs = set classes \<and>
            split_class E t = Inr (map (\<lambda>c. sub_table t (class_rows classes c)) cs) \<and>
            list_all star_inv (map (\<lambda>c. sub_table t (class_rows classes c)) cs)))"
proof (intro conjI impI)
  assume "\<not> has_column t ''_rlnClassNumber''"
  then show "split_class E t =
      Inl (PySegInputError ''split_class (Star)'' ''No _rlnClassNumber column found!'')"
    by (simp add: split_class_def)
next
  assume h: "has_column t ''_rlnClassNumber'' \<and> star_inv t \<and> registry_typed t \<and> set_order_ok E \<and>
    column_of t ''_rlnClassNumber'' = map VInt classes \<and> list_all in_int64 classes"
  then have s: "split_class E t
                 = Inr (map (\<lambda>c. sub_table t (class_rows classes c)) (set_order E classes))"
    by (intro split_class_ok) simp_all
  have o: "distinct (set_order E classes)" "set (set_order E classes) = set classes"
    using h by (simp_all add: set_order_ok_def)
  have i: "list_all star_inv (map (\<lambda>c. sub_table t (class_rows classes c)) (set_order E classes))"
    using h by (simp add: list_all_iff star_inv_sub_table)
  from s o i
  show "\<exists>cs. distinct cs \<and> set cs = set classes \<and>
            split_class E t = Inr (map (\<lambda>c. sub_table t (class_rows classes c)) cs) \<and>
            list_all star_inv (map (\<lambda>c. sub_table t (class_rows classes c)) cs)"
    by blast
qed

lemma is_valid_cls: "is_valid ''_rlnClassNumber''"
  using get_dtype_cls by (rule get_dtype_valid)

lemma is_valid_img: "is_valid ''_rlnImageName''"
  using get_dtype_img by (rule get_dtype_valid)

lemma registry_typed_three_rows: "registry_typed three_rows"
  by (simp add: registry_typed_def three_rows_def Star_init_def is_valid_cls is_valid_img
      reg_dtype_def get_dtype_cls get_dtype_img has_type_def)

lemma set_order_ok_demo: "set_order_ok demo_env"
  by (simp add: set_order_ok_def demo_env_def)

theorem split_class_partition_witness:
  "has_column three_rows ''_rlnClassNumber'' \<and> star_inv three_rows \<and> registry_typed three_rows \<and>
   set_order_ok demo_env \<and>
   column_of three_rows ''_rlnClassNumber'' = map VInt [1, 1, 2] \<and> list_all in_int64 [1, 1, 2] \<and>
   split_class demo_env three_rows =
     Inr [Star_init\<lparr>data := [(''_rlnImageName'', [VStr ''a.mrc'', VStr ''b.mrc'']),
                              (''_rlnClassNumber'', [VInt 1, VInt 1])],
            dtypes := [TStr, TInt], rows := 2, cols := [''_rlnImageName'', ''_rlnClassNumber'']\<rparr>,
          Star_init\<lparr>data := [(''_rlnImageName'', [VStr ''c.mrc'']), (''_rlnClassNumber'', [VInt 2])],
            dtypes := [TStr, TInt], rows := 1, cols := [''_rlnImageName'', ''_rlnClassNumber'']\<rparr>]"
proof -
  have h: "has_column three_rows ''_rlnClassNumber''"
    "column_of three_rows ''_rlnClassNumber'' = map VInt [1, 1, 2]" "list_all in_int64 [1, 1, 2]"
    by (simp_all add: has_column_def three_rows_def Star_init_def column_of_def in_int64_def)
  have o: "set_order demo_env [1, 1, 2] = [1, 2]"
    by (simp add: demo_env_def)
  have r: "class_rows [1, 1, 2] 1 = [0, 1]" "class_rows [1, 1, 2] 2 = [2]"
    by (simp_all add: class_rows_def numeral_3_eq_3)
  have e: "split_class demo_env three_rows
             = Inr [sub_table three_rows [0, 1], sub_table three_rows [2]]"
    using split_class_ok [OF h(1) star_inv_three_rows registry_typed_three_rows h(2,3), of demo_env]
    by (simp add: o r)
  from split_class_partition [of three_rows demo_env "[1, 1, 2]"] h e
  show ?thesis
    by (simp add: star_inv_three_rows registry_typed_three_rows set_order_ok_demo)
       (simp add: sub_table_def three_rows_def Star_init_def column_of_def)
qed

lemma get_dtype_myScore: "get_dtype ''myScore'' = None"
  by (simp add: get_dtype_def relion_cols_def)

lemma run_build_bypass_table: "run_ops demo_env Star_init build_bypass_table = Some bypass_table"
  by (simp add: build_bypass_table_def bypass_table_def Star_init_def add_column_def add_row_def
      get_dtype_cls is_valid_cls arg_items_def scalar_of_def Alist_inverse
      get_ncols_def is_column_def get_column_type_def cast_def py_int_def py_float_def
      get_dtype_myScore)

text \<open>
  Claim C8.  \<^verbatim>\<open>split_class\<close> rebuilds every column of the table in each new table, by
  \<^verbatim>\<open>star.add_column(key)\<close> for every key, but leaves \<^verbatim>\<open>no_parse\<close> at its default, so
  the name is checked against the registry again.  A table that holds a column admitted
  by \<^verbatim>\<open>add_column(key, no_parse=True)\<close> has a class-id column and satisfies the invariants,
  and \<^verbatim>\<open>split_class\<close> on it returns no table per class: it raises the error of
  \<^verbatim>\<open>add_column\<close> for a name that is not accepted.
\<close>

theorem split_class_bypass_column_raises:
  "run_ops demo_env Star_init build_bypass_table = Some bypass_table \<and>
   star_inv bypass_table \<and> has_column bypass_table ''_rlnClassNumber'' \<and>
   split_class demo_env bypass_table =
     Inl (PySegInputError ''add_column (Star)'' ''Column name myScore not accepted'')"
proof -
  have v: "\<not> is_valid ''myScore''"
    by (simp add: is_valid_def relion_cols_def)
  have s: "split_class demo_env bypass_table =
     Inl (PySegInputError ''add_column (Star)'' ''Column name myScore not accepted'')"
    by (simp add: split_class_def has_column_def bypass_table_def get_column_data_def
        is_column_def in_int64_def demo_env_def get_column_keys_def add_column_def
        is_valid_cls v get_dtype_cls arg_items_def scalar_of_def Star_init_def not_accepted_msg_def)
  show ?thesis
    using s run_build_bypass_table
    by (simp add: star_inv_def bypass_table_def Star_init_def has_column_def)
qed

section \<open>Claim on compute\_malign\<close>

lemma malign_row_miss:
  assumes "map_of (data t) ''_rlnImageName'' = Some names" "i < length names"
    "map_of (data ref) ''_rlnImageName'' = Some rnames" "py_index rnames (names ! i) = None"
  shows "malign_row E t ref v i = Inr None"
proof -
  have g: "get_element t ''_rlnImageName'' (int i) = Inr (names ! i)"
    using assms(1,2) by (rule get_element_nat)
  have f: "find_element ref ''_rlnImageName'' (names ! i) = Inl ValueError"
    using assms(3,4) by (simp add: find_element_def)
  show ?thesis
    by (simp add: malign_row_def g f)
qed

lemma malign_loop_result:
  "malign_loop E t ref v js acc = Inr res \<Longrightarrow>
     length (fst res) = length (fst acc) \<and> length (snd res) = length (snd acc) \<and>
     (\<forall>i. i \<notin> set js \<or> malign_row E t ref v i = Inr None \<longrightarrow>
          fst res ! i = fst acc ! i \<and> snd res ! i = snd acc ! i)"
proof (induction js arbitrary: acc)
  case Nil
  then have "res = acc" by simp
  then show ?case by simp
next
  case (Cons j js)
  show ?case
  proof (cases "malign_row E t ref v j")
    case (Inl e)
    have "malign_loop E t ref v (j # js) acc = Inl e"
      by (simp add: Inl)
    with Cons.prems show ?thesis by simp
  next
    case (Inr r)
    show ?thesis
    proof (cases r)
      case None
      have "malign_loop E t ref v (j # js) acc = malign_loop E t ref v js acc"
        by (simp add: Inr None)
      with Cons.prems have l: "malign_loop E t ref v js acc = Inr res"
        by simp
      note ih = Cons.IH [OF l]
      have len: "length (fst res) = length (fst acc)" "length (snd res) = length (snd acc)"
        using ih by blast+
      have "fst res ! i = fst acc ! i \<and> snd res ! i = snd acc ! i"
        if a: "i \<notin> set (j # js) \<or> malign_row E t ref v i = Inr None" for i
      proof -
        have "i \<notin> set js \<or> malign_row E t ref v i = Inr None" using a by auto
        with ih show ?thesis by blast
      qed
      with len show ?thesis by blast
    next
      case (Some p)
      obtain a s where p: "p = (a, s)" by (cases p)
      have "malign_loop E t ref v (j # js) acc
              = malign_loop E t ref v js ((fst acc)[j := a], (snd acc)[j := s])"
        by (simp add: Inr Some p)
      with Cons.prems
      have l: "malign_loop E t ref v js ((fst acc)[j := a], (snd acc)[j := s]) = Inr res"
        by simp
      note ih = Cons.IH [OF l]
      have len: "length (fst res) = length (fst acc)" "length (snd res) = length (snd acc)"
        using ih by simp_all
      have "fst res ! i = fst acc ! i \<and> snd res ! i = snd acc ! i"
        if a: "i \<notin> set (j # js) \<or> malign_row E t ref v i = Inr None" for i
      proof -
        have ne: "i \<noteq> j" using a Inr Some by auto
        have "i \<notin> set js \<or> malign_row E t ref v i = Inr None" using a by auto
        with ih have "fst res ! i = fst ((fst acc)[j := a], (snd acc)[j := s]) ! i \<and>
                      snd res ! i = snd ((fst acc)[j := a], (snd acc)[j := s]) ! i"
          by blast
        with ne show ?thesis by simp
      qed
      with len show ?thesis by blast
    qed
  qed
qed

lemma malign_loop_error:
  "malign_loop E t ref v js acc = Inl e \<Longrightarrow> \<exists>i \<in> set js. malign_row E t ref v i = Inl e"
proof (induction js arbitrary: acc)
  case Nil
  then show ?case by simp
next
  case (Cons j js)
  then show ?case
    by (cases "malign_row E t ref v j") (auto split: option.splits prod.splits)
qed

text \<open>
  Claim C7.  When both tables have the image-name column (the table's own one as long
  as its row count), \<^verbatim>\<open>compute_malign\<close> either returns two sequences of row-count
  length in which every row whose image name the reference column does not hold has
  the sentinel -1 in both, or it raises, and then the exception comes from a row
  whose image name the reference column does hold: a lookup miss raises nothing.
\<close>

theorem compute_malign_miss_sentinel:
  assumes "map_of (data t) ''_rlnImageName'' = Some names" and "length names = rows t"
    and "map_of (data ref) ''_rlnImageName'' = Some rnames"
  shows "case compute_malign E t ref v of
           Inr (angs, shifts) \<Rightarrow>
             length angs = rows t \<and> length shifts = rows t \<and>
             (\<forall>i < rows t. py_index rnames (names ! i) = None \<longrightarrow>
                angs ! i = Fin (- 1) \<and> shifts ! i = Fin (- 1))
         | Inl e \<Rightarrow>
             \<exists>i < rows t. py_index rnames (names ! i) \<noteq> None \<and> malign_row E t ref v i = Inl e"
proof (cases "compute_malign E t ref v")
  case (Inl e)
  then have "malign_loop E t ref v [0..<rows t]
               (replicate (rows t) sentinel, replicate (rows t) sentinel) = Inl e"
    by (simp add: compute_malign_def get_nrows_def Let_def)
  from malign_loop_error [OF this]
  obtain i where i: "i < rows t" "malign_row E t ref v i = Inl e" by auto
  have "py_index rnames (names ! i) \<noteq> None"
  proof
    assume "py_index rnames (names ! i) = None"
    with malign_row_miss [OF assms(1) _ assms(3), of i E v] i assms(2) show False by simp
  qed
  with Inl i show ?thesis by auto
next
  case (Inr res)
  obtain angs shifts where res: "res = (angs, shifts)" by (cases res)
  from Inr have l: "malign_loop E t ref v [0..<rows t]
                      (replicate (rows t) sentinel, replicate (rows t) sentinel) = Inr res"
    by (simp add: compute_malign_def get_nrows_def Let_def)
  have "angs ! i = Fin (- 1) \<and> shifts ! i = Fin (- 1)"
    if "i < rows t" "py_index rnames (names ! i) = None" for i
  proof -
    have "malign_row E t ref v i = Inr None"
      using malign_row_miss [OF assms(1) _ assms(3)] that assms(2) by simp
    with malign_loop_result [OF l] that(1) res show ?thesis
      by (simp add: sentinel_def)
  qed
  with malign_loop_result [OF l] Inr res show ?thesis by simp
qed

theorem compute_malign_miss_sentinel_witness:
  "map_of (data pose_table) ''_rlnImageName'' = Some [VStr ''a.mrc'', VStr ''b.mrc''] \<and>
   length [VStr ''a.mrc'', VStr ''b.mrc''] = rows pose_table \<and>
   map_of (data pose_ref) ''_rlnImageName'' = Some [VStr ''b.mrc''] \<and>
   py_index [VStr ''b.mrc''] (VStr ''a.mrc'') = None \<and>
   compute_malign demo_env pose_table pose_ref [Fin 0, Fin 0, Fin 1]
     = Inr ([Fin (- 1), Fin 0], [Fin (- 1), Fin 0])"
proof -
  have h: "map_of (data pose_table) ''_rlnImageName'' = Some [VStr ''a.mrc'', VStr ''b.mrc'']"
    "length [VStr ''a.mrc'', VStr ''b.mrc''] = rows pose_table"
    "map_of (data pose_ref) ''_rlnImageName'' = Some [VStr ''b.mrc'']"
    by (simp_all add: pose_table_def pose_ref_def Star_init_def)
  have c: "compute_malign demo_env pose_table pose_ref [Fin 0, Fin 0, Fin 1]
              = Inr ([Fin (- 1), Fin 0], [Fin (- 1), Fin 0])"
    by code_simp
  from compute_malign_miss_sentinel [OF h, of demo_env "[Fin 0, Fin 0, Fin 1]"] h c
  show ?thesis by (simp add: py_eq_def)
qed

section \<open>Lemmas on particle\_group\<close>


















lemma particle_group_no_column:
  "\<not> is_column t ''_rlnGroupNumber'' \<Longrightarrow> particle_group E t min_gp = Inl TypeError"
  by (simp add: particle_group_def groups_from_column_def get_column_data_def)




section \<open>Claims on particle\_group\<close>

text \<open>
  Claim C4.  Without a group-id column the rows are to be grouped by micrograph name,
  or put in one group when that source is missing too.  The code never gets there:
  \<^verbatim>\<open>get_column_data\<close> returns \<^verbatim>\<open>None\<close> for the missing column, \<^verbatim>\<open>set(None)\<close>
  raises TypeError, and the handler that holds the fallback catches only ValueError
  (\<open>particle_group_no_column\<close>).  On a table of two micrographs and three
  particles the call raises.
\<close>

theorem particle_group_without_group_column:
  "particle_group demo_env micrograph_table (Some 1) = Inl TypeError"
  by (simp add: particle_group_no_column is_column_def micrograph_table_def Star_init_def)






section \<open>Lemmas on load\<close>

lemma cast_token_amended: "cast_token E dtype d = amended_cell E dtype d"
  by (cases dtype)
     (auto simp: cast_token_def amended_cell_def cast_def py_str_def py_int_def py_float_def
        int_of_float_def split: option.splits pyfloat.splits)

lemma load_row_frame:
  "load_row E t zs = Inr t' \<Longrightarrow>
     cols t' = cols t \<and> dtypes t' = dtypes t \<and> rows t' = rows t \<and> header_1 t' = header_1 t"
proof (induction zs arbitrary: t)
  case Nil
  then show ?case by simp
next
  case (Cons z zs)
  obtain d dt c where z: "z = (d, dt, c)" by (cases z)
  from Cons.prems z obtain v col where
    "load_row E (t\<lparr>data := AList.update c (col @ [v]) (data t)\<rparr>) zs = Inr t'"
    by (auto split: sum.splits option.splits)
  from Cons.IH [OF this] show ?case by simp
qed

lemma load_row_amended:
  "length ds = length dts \<Longrightarrow> length dts = length cs \<Longrightarrow> distinct cs \<Longrightarrow>
   set cs \<subseteq> fst ` set (data t) \<Longrightarrow>
   (case amended_cells E (zip ds dts) of
      Inl e \<Rightarrow> load_row E t (zip ds (zip dts cs)) = Inl e
    | Inr vs \<Rightarrow>
        length vs = length cs \<and>
        (\<exists>t'. load_row E t (zip ds (zip dts cs)) = Inr t' \<and>
              (\<forall>j < length cs. map_of (data t') (cs ! j) = Some (column_of t (cs ! j) @ [vs ! j])) \<and>
              (\<forall>k. k \<notin> set cs \<longrightarrow> map_of (data t') k = map_of (data t) k)))"
proof (induction ds dts cs arbitrary: t rule: list_induct3)
  case Nil
  then show ?case by simp
next
  case (Cons d ds dt dts c cs)
  show ?case
  proof (cases "amended_cell E dt d")
    case (Inl e)
    then show ?thesis by (simp add: cast_token_amended)
  next
    case (Inr v)
    have "c \<in> fst ` set (data t)" using Cons.prems(2) by simp
    then obtain col where col: "map_of (data t) c = Some col"
      by (metis map_of_eq_None_iff not_None_eq)
    let ?t1 = "t\<lparr>data := AList.update c (col @ [v]) (data t)\<rparr>"
    have step: "load_row E t (zip (d # ds) (zip (dt # dts) (c # cs)))
                  = load_row E ?t1 (zip ds (zip dts cs))"
      using Inr col by (simp add: cast_token_amended)
    have d1: "distinct cs" "c \<notin> set cs" using Cons.prems(1) by simp_all
    have s1: "set cs \<subseteq> fst ` set (data ?t1)"
      using Cons.prems(2) by (auto simp: dom_update)
    note ih = Cons.IH [OF d1(1) s1]
    show ?thesis
    proof (cases "amended_cells E (zip ds dts)")
      case (Inl e)
      with ih Inr step show ?thesis by simp
    next
      case r: (Inr vs)
      with ih obtain t' where
        l: "length vs = length cs" and
        t': "load_row E ?t1 (zip ds (zip dts cs)) = Inr t'" and
        a: "\<forall>j < length cs. map_of (data t') (cs ! j) = Some (column_of ?t1 (cs ! j) @ [vs ! j])" and
        b: "\<forall>k. k \<notin> set cs \<longrightarrow> map_of (data t') k = map_of (data ?t1) k"
        by auto
      have c0: "map_of (data t') c = Some (column_of t c @ [v])"
        using b d1(2) col by (simp add: update_conv' column_of_def)
      have "map_of (data t') ((c # cs) ! j) = Some (column_of t ((c # cs) ! j) @ [(v # vs) ! j])"
        if "j < length (c # cs)" for j
      proof (cases j)
        case 0
        with c0 show ?thesis by simp
      next
        case (Suc i)
        then have i: "i < length cs" using that by simp
        then have "cs ! i \<noteq> c" using d1(2) by auto
        then have "column_of ?t1 (cs ! i) = column_of t (cs ! i)"
          by (simp add: column_of_def update_conv')
        with a i Suc show ?thesis by simp
      qed
      moreover have "map_of (data t') k = map_of (data t) k" if "k \<notin> set (c # cs)" for k
        using b that by (simp add: update_conv')
      ultimately show ?thesis
        using Inr r l step t' by simp
    qed
  qed
qed


lemma load_cols_fresh:
  "load_cols path t ls = Inr (t1, rest) \<Longrightarrow> holds_rows t [] \<Longrightarrow>
     holds_rows t1 [] \<and> header_1 t1 = header_1 t"
proof (induction ls arbitrary: t)
  case Nil
  then show ?case by simp
next
  case (Cons l ls)
  show ?case
  proof (cases "l \<noteq> [] \<and> hd l = CHR ''_''")
    case False
    with Cons.prems show ?thesis by (cases l) (auto split: if_splits)
  next
    case True
    then obtain cs where l: "l = CHR ''_'' # cs" by (cases l) auto
    from Cons.prems(1) l obtain col toks dtype where
      sp: "py_split l = col # toks" and dt: "get_dtype col = Some dtype"
      and nc: "\<not> is_column t col"
      and rec: "load_cols path (t\<lparr>data := AList.update col [] (data t),
                   dtypes := dtypes t @ [dtype], cols := cols t @ [col]\<rparr>) ls = Inr (t1, rest)"
      by (auto split: list.splits option.splits if_splits)
    let ?t = "t\<lparr>data := AList.update col [] (data t),
                   dtypes := dtypes t @ [dtype], cols := cols t @ [col]\<rparr>"
    have fresh: "col \<notin> set (cols t)" using nc by (simp add: is_column_def)
    have "map_of (data ?t) (cols ?t ! j) = Some (map (\<lambda>r. r ! j) [])" if "j < length (cols ?t)" for j
    proof (cases "j < length (cols t)")
      case True
      then have "cols t ! j \<noteq> col" using fresh by auto
      with True Cons.prems(2) show ?thesis
        by (simp add: holds_rows_def nth_append update_conv')
    next
      case False
      with that have "j = length (cols t)" by simp
      then show ?thesis by (simp add: update_conv')
    qed
    then have "holds_rows ?t []"
      using Cons.prems(2) fresh by (simp add: holds_rows_def)
    from Cons.IH [OF rec this] show ?thesis by simp
  qed
qed

lemma load_rows_amended:
  "holds_rows t acc \<Longrightarrow>
   (case amended_rows E (dtypes t) ls of
      Inl e \<Rightarrow> load_rows E t ls = Inl e
    | Inr rws \<Rightarrow>
        (\<exists>t'. load_rows E t ls = Inr t' \<and> holds_rows t' (acc @ rws) \<and>
              cols t' = cols t \<and> dtypes t' = dtypes t \<and> header_1 t' = header_1 t))"
proof (induction ls arbitrary: t acc)
  case Nil
  then show ?case by simp
next
  case (Cons line ls)
  let ?ds = "py_split line"
  show ?case
  proof (cases "length ?ds = length (dtypes t)")
    case False
    with Cons.prems show ?thesis by (simp add: holds_rows_def get_ncols_def)
  next
    case True
    have n: "get_ncols t = length ?ds"
      using True Cons.prems by (simp add: holds_rows_def get_ncols_def)
    have lc: "length (dtypes t) = length (cols t)" and dc: "distinct (cols t)"
      using Cons.prems by (simp_all add: holds_rows_def)
    have sub: "set (cols t) \<subseteq> fst ` set (data t)"
    proof
      fix c assume "c \<in> set (cols t)"
      then obtain j where "j < length (cols t)" "cols t ! j = c" by (auto simp: in_set_conv_nth)
      with Cons.prems have "map_of (data t) c \<noteq> None" by (auto simp: holds_rows_def)
      then show "c \<in> fst ` set (data t)" by (simp add: map_of_eq_None_iff)
    qed
    note lr = load_row_amended [OF True lc dc sub, of E]
    show ?thesis
    proof (cases "amended_cells E (zip ?ds (dtypes t))")
      case (Inl e)
      with lr True n show ?thesis by simp
    next
      case (Inr vs)
      with lr obtain t2 where
        lv: "length vs = length (cols t)" and
        t2: "load_row E t (zip ?ds (zip (dtypes t) (cols t))) = Inr t2" and
        a: "\<forall>j < length (cols t). map_of (data t2) (cols t ! j) = Some (column_of t (cols t ! j) @ [vs ! j])"
        by auto
      from load_row_frame [OF t2] have fr: "cols t2 = cols t" "dtypes t2 = dtypes t"
        "rows t2 = rows t" "header_1 t2 = header_1 t" by simp_all
      let ?t3 = "t2\<lparr>rows := rows t2 + 1\<rparr>"
      have h3: "holds_rows ?t3 (acc @ [vs])"
        using Cons.prems a fr by (simp add: holds_rows_def column_of_def)
      have step: "load_rows E t (line # ls) = load_rows E ?t3 ls"
        using n t2 by simp
      note ih = Cons.IH [OF h3]
      show ?thesis
      proof (cases "amended_rows E (dtypes t) ls")
        case (Inl e)
        with ih Inr True step fr show ?thesis by simp
      next
        case r: (Inr rws)
        with ih fr obtain t' where
          "load_rows E ?t3 ls = Inr t'" "holds_rows t' ((acc @ [vs]) @ rws)"
          "cols t' = cols t" "dtypes t' = dtypes t" "header_1 t' = header_1 t"
          by auto
        with Inr r True step show ?thesis by simp
      qed
    qed
  qed
qed

lemma holds_rows_init: "holds_rows (Star_init\<lparr>header_1 := h, cols := []\<rparr>) []"
  by (simp add: holds_rows_def Star_init_def)

section \<open>Claim on the casts of load\<close>

text \<open>
  Claim C6, amended.  During \<^verbatim>\<open>load\<close> into a new table, every token of a data line is
  cast to the type of its column: a text column stores the token, a real column the
  value of a real literal, an integer column the value of an integer literal.  When
  the cast to an integer column fails, the token is parsed as a real, whether or not
  it holds a decimal point, and a finite value is truncated toward zero and stored.
  A token that is no real literal either, one whose value is not finite, and in a
  real column a token that is no real literal, abort the load with the exception of
  the cast (ValueError, or OverflowError for an infinity).  The data lines end at the
  first line that does not hold one token per column.
\<close>

theorem load_casts_every_token:
  assumes "take_header lines = Inr (h, after_h)"
    and "load_cols path (Star_init\<lparr>header_1 := h, cols := []\<rparr>) after_h = Inr (t1, body)"
  shows "case amended_rows E (dtypes t1) body of
           Inl e \<Rightarrow> load E Star_init path lines = Inl e
         | Inr rws \<Rightarrow>
             (\<exists>t'. load E Star_init path lines = Inr t' \<and> holds_rows t' rws \<and>
                   cols t' = cols t1 \<and> dtypes t' = dtypes t1 \<and> header_1 t' = h)"
proof -
  from load_cols_fresh [OF assms(2) holds_rows_init]
  have h1: "holds_rows t1 []" and hd: "header_1 t1 = h" by simp_all
  note lr = load_rows_amended [OF h1, of E body]
  show ?thesis
  proof (cases "amended_rows E (dtypes t1) body")
    case (Inl e)
    with lr assms show ?thesis by (simp add: load_def)
  next
    case (Inr rws)
    with lr obtain t' where
      "load_rows E t1 body = Inr t'" "holds_rows t' rws"
      "cols t' = cols t1" "dtypes t' = dtypes t1" "header_1 t' = header_1 t1"
      by auto
    with Inr assms hd show ?thesis by (simp add: load_def holds_rows_def)
  qed
qed

theorem load_casts_every_token_witness:
  "take_header demo_lines = Inr (take 4 demo_lines, drop 4 demo_lines) \<and>
   load_cols ''run/f.star'' (Star_init\<lparr>header_1 := take 4 demo_lines, cols := []\<rparr>)
       (drop 4 demo_lines)
     = Inr (demo_loaded\<lparr>data := [(''_rlnImageName'', []), (''_rlnClassNumber'', [])], rows := 0,
              root_dir := None, fname := None\<rparr>, drop 6 demo_lines) \<and>
   amended_rows demo_env [TStr, TInt] (drop 6 demo_lines)
     = Inr [[VStr ''a.mrc'', VInt 2], [VStr ''b.mrc'', VInt (- 10)], [VStr ''c.mrc'', VInt 3]] \<and>
   load demo_env Star_init ''run/f.star'' demo_lines = Inr demo_loaded"
proof -
  have a: "take_header demo_lines = Inr (take 4 demo_lines, drop 4 demo_lines)"
    by code_simp
  have b: "load_cols ''run/f.star'' (Star_init\<lparr>header_1 := take 4 demo_lines, cols := []\<rparr>)
       (drop 4 demo_lines)
     = Inr (demo_loaded\<lparr>data := [(''_rlnImageName'', []), (''_rlnClassNumber'', [])], rows := 0,
              root_dir := None, fname := None\<rparr>, drop 6 demo_lines)"
    by code_simp
  have c: "amended_rows demo_env [TStr, TInt] (drop 6 demo_lines)
     = Inr [[VStr ''a.mrc'', VInt 2], [VStr ''b.mrc'', VInt (- 10)], [VStr ''c.mrc'', VInt 3]]"
    by code_simp
  have d: "load demo_env Star_init ''run/f.star'' demo_lines = Inr demo_loaded"
    by code_simp
  from load_casts_every_token [OF a b, of demo_env] a b c d
  show ?thesis by simp
qed

text \<open>
  The claim as it is worded fails twice.  In an integer column the token \<^verbatim>\<open>1.2.3\<close>
  holds a decimal point and \<^verbatim>\<open>int\<close> refuses it, yet the load raises (the ValueError of
  \<^verbatim>\<open>float\<close>); the token \<^verbatim>\<open>1e3\<close> holds no decimal point and \<^verbatim>\<open>int\<close> refuses it, yet the
  load stores 1000 and raises nothing.
\<close>

theorem load_int_fallback_counterexample:
  "load demo_env Star_init ''f.star'' (one_token_lines ''1.2.3'') = Inl ValueError \<and>
   int_of_str ''1.2.3'' = None \<and> CHR ''.'' \<in> set ''1.2.3'' \<and>
   load demo_env Star_init ''f.star'' (one_token_lines ''1e3'') =
     Inr \<lparr>header_1 = [], data = [(''_rlnClassNumber'', [VInt 1000])], dtypes = [TInt], rows = 1,
          cols = [''_rlnClassNumber''], root_dir = Some [], fname = Some ''f.star''\<rparr> \<and>
   int_of_str ''1e3'' = None \<and> CHR ''.'' \<notin> set ''1e3''"
proof -
  have a: "load demo_env Star_init ''f.star'' (one_token_lines ''1.2.3'') = Inl ValueError"
    by code_simp
  have b: "load demo_env Star_init ''f.star'' (one_token_lines ''1e3'') =
     Inr \<lparr>header_1 = [], data = [(''_rlnClassNumber'', [VInt 1000])], dtypes = [TInt], rows = 1,
          cols = [''_rlnClassNumber''], root_dir = Some [], fname = Some ''f.star''\<rparr>"
    by code_simp
  have c: "int_of_str ''1.2.3'' = None" "int_of_str ''1e3'' = None"
    by code_simp+
  show ?thesis using a b c by simp
qed

section \<open>Lemmas on the text of a table\<close>


































section \<open>Claim on the round trip\<close>





end
